theory Spec2Isabelle
  imports Main
begin

section \<open>Text and token estimation (scanner.py)\<close>

text \<open>
  A Python \<open>str\<close> is a sequence of Unicode code points, and \<open>len\<close> counts code points.
  The model therefore represents a text as the list of its code points.
\<close>

type_synonym pystr = "nat list"

text \<open>Exceptions raised by the modelled code, as values.\<close>

datatype error =
    RangeStepZero                 \<comment> \<open>ValueError: range() arg 3 must not be zero\<close>
  | MaxWorkersZero                \<comment> \<open>ValueError: max_workers must be greater than 0\<close>
  | PayloadTooLarge int           \<comment> \<open>RuntimeError raised by the pre-flight guard of \<open>_call_llm\<close>\<close>
  | LLMCallFailed pystr           \<comment> \<open>RuntimeError wrapping an exception of the backend client\<close>
  | NoProjectAnalyzed             \<comment> \<open>RuntimeError raised by \<open>ask\<close> on an empty history\<close>
  | ScanFailed pystr              \<comment> \<open>any exception raised by \<open>scan_project\<close>\<close>

definition CHARS_PER_TOKEN :: int where
  "CHARS_PER_TOKEN = 3"

definition estimate_tokens :: "pystr \<Rightarrow> int" where
  "estimate_tokens text = max 0 (int (length text) div CHARS_PER_TOKEN)"

text \<open>
  Python's slice \<open>xs[:k]\<close>: a negative \<open>k\<close> counts from the end, and the bounds are
  clipped to the list.
\<close>

definition slice_to :: "'a list \<Rightarrow> int \<Rightarrow> 'a list" where
  "slice_to xs k =
     (if k < 0 then take (nat (int (length xs) + k)) xs else take (nat k) xs)"

definition truncate_to_token_limit :: "pystr \<Rightarrow> int \<Rightarrow> pystr \<Rightarrow> pystr" where
  "truncate_to_token_limit text max_tokens notice =
     (let max_chars = max_tokens * CHARS_PER_TOKEN in
      if int (length text) \<le> max_chars then text
      else (let truncated = slice_to text max_chars in
            if notice \<noteq> [] then truncated @ [10] @ notice else truncated))"

subsection \<open>Line splitting\<close>

text \<open>
  The line boundaries of \<open>str.splitlines\<close>: LF, VT, FF, CR, FS, GS, RS, NEL, LS and PS;
  CR immediately followed by LF is one boundary.
\<close>

definition is_linebreak :: "nat \<Rightarrow> bool" where
  "is_linebreak c \<longleftrightarrow> c \<in> {10, 11, 12, 13, 28, 29, 30, 133, 8232, 8233}"

text \<open>
  \<open>splitlines_from cur rest\<close> is \<open>text.splitlines(keepends=True)\<close> with \<open>cur\<close> the part of
  the current line read so far; a trailing piece without a boundary is a line, an empty
  one is not.
\<close>

fun splitlines_from :: "pystr \<Rightarrow> pystr \<Rightarrow> pystr list" where
  "splitlines_from cur [] = (if cur = [] then [] else [cur])"
| "splitlines_from cur [c] = [cur @ [c]]"
| "splitlines_from cur (c # d # cs) =
     (if c = 13 \<and> d = 10 then (cur @ [c, d]) # splitlines_from [] cs
      else if is_linebreak c then (cur @ [c]) # splitlines_from [] (d # cs)
      else splitlines_from (cur @ [c]) (d # cs))"

definition splitlines :: "pystr \<Rightarrow> pystr list" where
  "splitlines text = splitlines_from [] text"

subsection \<open>Chunking\<close>

text \<open>
  The hard split of one oversized line,
  \<open>for start in range(0, line_len, max_chars): chunks.append(line[start: start + max_chars])\<close>,
  for a positive step: \<open>start\<close> runs through \<open>0, m, 2m, ...\<close> while it is below the length.
\<close>

function hard_split_from :: "pystr \<Rightarrow> nat \<Rightarrow> nat \<Rightarrow> pystr list" where
  "hard_split_from line m start =
     (if 0 < m \<and> start < length line
      then take m (drop start line) # hard_split_from line m (start + m)
      else [])"
  by pat_completeness auto
termination
  by (relation "measure (\<lambda>(line, m, start). length line - start)") auto

declare hard_split_from.simps [simp del]

text \<open>
  \<open>range\<close> raises on a zero step; with a negative step and a positive stop it is empty.
\<close>

definition hard_split :: "pystr \<Rightarrow> int \<Rightarrow> error + pystr list" where
  "hard_split line max_chars =
     (if max_chars = 0 then Inl RangeStepZero
      else if max_chars < 0 then Inr []
      else Inr (hard_split_from line (nat max_chars) 0))"

text \<open>
  The loop of \<open>chunk_text\<close> over the lines. Its state is the triple
  \<open>(chunks, current_chunk, current_len)\<close>.
\<close>

type_synonym chunk_state = "pystr list \<times> pystr list \<times> int"

fun chunk_loop :: "int \<Rightarrow> pystr list \<Rightarrow> chunk_state \<Rightarrow> error + chunk_state" where
  "chunk_loop max_chars [] st = Inr st"
| "chunk_loop max_chars (line # lines) (chunks, current_chunk, current_len) =
     (let line_len = int (length line) in
      if line_len > max_chars then
        (let (chunks1, current1, len1) =
               (if current_chunk \<noteq> [] then (chunks @ [concat current_chunk], [], 0)
                else (chunks, current_chunk, current_len)) in
         case hard_split line max_chars of
           Inl e \<Rightarrow> Inl e
         | Inr pieces \<Rightarrow> chunk_loop max_chars lines (chunks1 @ pieces, current1, len1))
      else if current_len + line_len > max_chars then
        chunk_loop max_chars lines (chunks @ [concat current_chunk], [line], line_len)
      else
        chunk_loop max_chars lines (chunks, current_chunk @ [line], current_len + line_len))"

definition chunk_text :: "pystr \<Rightarrow> int \<Rightarrow> error + pystr list" where
  "chunk_text text chunk_token_size =
     (let max_chars = chunk_token_size * CHARS_PER_TOKEN in
      if int (length text) \<le> max_chars then Inr [text]
      else (case chunk_loop max_chars (splitlines text) ([], [], 0) of
              Inl e \<Rightarrow> Inl e
            | Inr (chunks, current_chunk, current_len) \<Rightarrow>
                Inr (if current_chunk \<noteq> [] then chunks @ [concat current_chunk] else chunks)))"

text \<open>
  The loop invariant: nothing of the text is lost or reordered, no closed chunk is longer
  than \<open>max_chars\<close>, and \<open>current_len\<close> is the length of the open chunk, itself within
  \<open>max_chars\<close>.
\<close>

definition chunk_inv :: "int \<Rightarrow> chunk_state \<Rightarrow> bool" where
  "chunk_inv max_chars st =
     (case st of (chunks, current_chunk, current_len) \<Rightarrow>
        (\<forall>c \<in> set chunks. int (length c) \<le> max_chars)
        \<and> current_len = int (length (concat current_chunk))
        \<and> current_len \<le> max_chars)"

definition chunk_content :: "chunk_state \<Rightarrow> pystr" where
  "chunk_content st = (case st of (chunks, current_chunk, current_len) \<Rightarrow>
     concat chunks @ concat current_chunk)"

section \<open>The analysis agent (agent.py)\<close>

subsection \<open>Strings and prompt templates\<close>

definition ascii :: "string \<Rightarrow> pystr" where
  "ascii s = map of_char s"

text \<open>Python's \<open>str(n)\<close> for a non-negative integer: its decimal digits.\<close>

fun str_of_nat :: "nat \<Rightarrow> pystr" where
  "str_of_nat n = (if n < 10 then [48 + n] else str_of_nat (n div 10) @ [48 + n mod 10])"

declare str_of_nat.simps [simp del]

text \<open>\<open>sep.join(parts)\<close>.\<close>

fun join :: "pystr \<Rightarrow> pystr list \<Rightarrow> pystr" where
  "join sep [] = []"
| "join sep [x] = x"
| "join sep (x # y # ys) = x @ sep @ join sep (y # ys)"

text \<open>
  Each template is modelled by the function that \<open>str.format\<close> computes from it: the
  literal text of the template with the fields put in their places.
\<close>

definition SYSTEM_PROMPT :: "pystr" where
  "SYSTEM_PROMPT =
      ascii ''You are an expert software architect and code analyst. Your role is to analyze\<newline>''
      @ ascii ''project codebases and provide detailed, accurate insights.\<newline>''
      @ ascii ''\<newline>''
      @ ascii ''When given a codebase to analyze, you will:\<newline>''
      @ ascii ''1. Identify the project''
      @ [39]
      @ ascii ''s overall purpose and architecture\<newline>''
      @ ascii ''2. Map out the directory structure and explain the organization rationale\<newline>''
      @ ascii ''3. Describe each file''
      @ [39]
      @ ascii ''s purpose and responsibility\<newline>''
      @ ascii ''4. Identify key components, modules, and their interactions\<newline>''
      @ ascii ''5. Trace import/dependency relationships between files\<newline>''
      @ ascii ''6. Identify entry points and describe data flow\<newline>''
      @ ascii ''7. Recognize architectural patterns (MVC, microservices, layered, etc.)\<newline>''
      @ ascii ''8. Note any configuration files and their roles\<newline>''
      @ ascii ''\<newline>''
      @ ascii ''When answering follow-up questions:\<newline>''
      @ ascii ''- Reference specific files and line-level details from the codebase context\<newline>''
      @ ascii ''- Provide concrete, accurate answers based solely on the analyzed code\<newline>''
      @ ascii ''- Trace execution paths and data flows when asked\<newline>''
      @ ascii ''- Highlight relationships between components clearly\<newline>''
      @ ascii ''\<newline>''
      @ ascii ''Always be precise, technical, and grounded in the actual code provided.''"

definition INITIAL_ANALYSIS_PROMPT_format :: "pystr \<Rightarrow> pystr \<Rightarrow> pystr \<Rightarrow> pystr" where
  "INITIAL_ANALYSIS_PROMPT_format project_path directory_tree code_contents =
      ascii ''Please analyze the following project codebase and generate a comprehensive report.\<newline>''
      @ ascii ''\<newline>''
      @ ascii ''## Project Path\<newline>''
      @ project_path
      @ ascii ''\<newline>''
      @ ascii ''\<newline>''
      @ ascii ''## Directory Structure\<newline>''
      @ ascii ''```\<newline>''
      @ directory_tree
      @ ascii ''\<newline>''
      @ ascii ''```\<newline>''
      @ ascii ''\<newline>''
      @ ascii ''## File Contents\<newline>''
      @ code_contents
      @ ascii ''\<newline>''
      @ ascii ''\<newline>''
      @ ascii ''---\<newline>''
      @ ascii ''\<newline>''
      @ ascii ''Please provide a structured analysis report with the following sections:\<newline>''
      @ ascii ''\<newline>''
      @ ascii ''### 1. Project Overview\<newline>''
      @ ascii ''Brief description of what this project does and its overall purpose.\<newline>''
      @ ascii ''\<newline>''
      @ ascii ''### 2. Directory Structure & Organization\<newline>''
      @ ascii ''Explain the directory hierarchy and the rationale behind the organization.\<newline>''
      @ ascii ''\<newline>''
      @ ascii ''### 3. File Inventory & Purposes\<newline>''
      @ ascii ''For each file, describe:\<newline>''
      @ ascii ''- Its primary responsibility\<newline>''
      @ ascii ''- Key functions/classes/exports it contains\<newline>''
      @ ascii ''- Its role in the overall system\<newline>''
      @ ascii ''\<newline>''
      @ ascii ''### 4. Component Interactions & Relationships\<newline>''
      @ ascii ''How do the different modules/files interact with each other?\<newline>''
      @ ascii ''Which components depend on which?\<newline>''
      @ ascii ''\<newline>''
      @ ascii ''### 5. Dependency Map\<newline>''
      @ ascii ''List all import/dependency relationships between files (internal dependencies).\<newline>''
      @ ascii ''Also note any external libraries/packages used.\<newline>''
      @ ascii ''\<newline>''
      @ ascii ''### 6. Entry Points & Data Flow\<newline>''
      @ ascii ''Identify the main entry points of the application.\<newline>''
      @ ascii ''Describe how data flows through the system from input to output.\<newline>''
      @ ascii ''\<newline>''
      @ ascii ''### 7. Architecture Patterns\<newline>''
      @ ascii ''What architectural patterns or design principles are evident in this codebase?\<newline>''
      @ ascii ''\<newline>''
      @ ascii ''### 8. Summary\<newline>''
      @ ascii ''A concise summary of the codebase''
      @ [39]
      @ ascii ''s strengths and overall design quality.''"

definition MAP_CHUNK_PROMPT_format :: "nat \<Rightarrow> nat \<Rightarrow> pystr \<Rightarrow> pystr \<Rightarrow> pystr \<Rightarrow> pystr" where
  "MAP_CHUNK_PROMPT_format chunk_index total_chunks project_path directory_tree code_contents =
      ascii ''You are analysing a large codebase in parts. This is chunk ''
      @ str_of_nat chunk_index
      @ ascii '' of ''
      @ str_of_nat total_chunks
      @ ascii ''.\<newline>''
      @ ascii ''\<newline>''
      @ ascii ''## Project Path\<newline>''
      @ project_path
      @ ascii ''\<newline>''
      @ ascii ''\<newline>''
      @ ascii ''## Directory Structure (full project)\<newline>''
      @ ascii ''```\<newline>''
      @ directory_tree
      @ ascii ''\<newline>''
      @ ascii ''```\<newline>''
      @ ascii ''\<newline>''
      @ ascii ''## File Contents (this chunk only)\<newline>''
      @ code_contents
      @ ascii ''\<newline>''
      @ ascii ''\<newline>''
      @ ascii ''---\<newline>''
      @ ascii ''\<newline>''
      @ ascii ''Provide a concise technical summary of the files in this chunk covering:\<newline>''
      @ ascii ''- File names and their primary responsibilities\<newline>''
      @ ascii ''- Key classes, functions, and exports\<newline>''
      @ ascii ''- Import/dependency relationships visible in this chunk\<newline>''
      @ ascii ''- Any entry points or notable patterns\<newline>''
      @ ascii ''\<newline>''
      @ ascii ''Be thorough but concise ''
      @ [8212]
      @ ascii '' this summary will be merged with summaries of other chunks.''"

definition REDUCE_BATCH_PROMPT_format :: "pystr \<Rightarrow> pystr \<Rightarrow> pystr \<Rightarrow> pystr" where
  "REDUCE_BATCH_PROMPT_format project_path directory_tree chunk_summaries =
      ascii ''You are synthesising partial codebase summaries into a consolidated intermediate summary.\<newline>''
      @ ascii ''\<newline>''
      @ ascii ''## Project Path\<newline>''
      @ project_path
      @ ascii ''\<newline>''
      @ ascii ''\<newline>''
      @ ascii ''## Directory Structure\<newline>''
      @ ascii ''```\<newline>''
      @ directory_tree
      @ ascii ''\<newline>''
      @ ascii ''```\<newline>''
      @ ascii ''\<newline>''
      @ ascii ''## Partial Summaries to Consolidate\<newline>''
      @ chunk_summaries
      @ ascii ''\<newline>''
      @ ascii ''\<newline>''
      @ ascii ''---\<newline>''
      @ ascii ''\<newline>''
      @ ascii ''Produce a consolidated technical summary that preserves all key information:\<newline>''
      @ ascii ''- All file names and their responsibilities\<newline>''
      @ ascii ''- All key classes, functions, and exports\<newline>''
      @ ascii ''- All import/dependency relationships\<newline>''
      @ ascii ''- All entry points and notable patterns\<newline>''
      @ ascii ''\<newline>''
      @ ascii ''Be comprehensive but avoid redundancy.''"

definition REDUCE_SYNTHESIS_PROMPT_format :: "nat \<Rightarrow> pystr \<Rightarrow> pystr \<Rightarrow> pystr \<Rightarrow> pystr" where
  "REDUCE_SYNTHESIS_PROMPT_format total_chunks project_path directory_tree chunk_summaries =
      ascii ''You have analysed a large codebase in ''
      @ str_of_nat total_chunks
      @ ascii '' parts.\<newline>''
      @ ascii ''Below are the consolidated summaries. Synthesise them into one comprehensive analysis report.\<newline>''
      @ ascii ''\<newline>''
      @ ascii ''## Project Path\<newline>''
      @ project_path
      @ ascii ''\<newline>''
      @ ascii ''\<newline>''
      @ ascii ''## Directory Structure\<newline>''
      @ ascii ''```\<newline>''
      @ directory_tree
      @ ascii ''\<newline>''
      @ ascii ''```\<newline>''
      @ ascii ''\<newline>''
      @ ascii ''## Consolidated Summaries\<newline>''
      @ chunk_summaries
      @ ascii ''\<newline>''
      @ ascii ''\<newline>''
      @ ascii ''---\<newline>''
      @ ascii ''\<newline>''
      @ ascii ''Please provide a complete structured analysis report with the following sections:\<newline>''
      @ ascii ''\<newline>''
      @ ascii ''### 1. Project Overview\<newline>''
      @ ascii ''Brief description of what this project does and its overall purpose.\<newline>''
      @ ascii ''\<newline>''
      @ ascii ''### 2. Directory Structure & Organization\<newline>''
      @ ascii ''Explain the directory hierarchy and the rationale behind the organization.\<newline>''
      @ ascii ''\<newline>''
      @ ascii ''### 3. File Inventory & Purposes\<newline>''
      @ ascii ''For each file (across all chunks), describe its primary responsibility and role.\<newline>''
      @ ascii ''\<newline>''
      @ ascii ''### 4. Component Interactions & Relationships\<newline>''
      @ ascii ''How do the different modules/files interact with each other?\<newline>''
      @ ascii ''Which components depend on which?\<newline>''
      @ ascii ''\<newline>''
      @ ascii ''### 5. Dependency Map\<newline>''
      @ ascii ''List all import/dependency relationships between files (internal dependencies).\<newline>''
      @ ascii ''Also note any external libraries/packages used.\<newline>''
      @ ascii ''\<newline>''
      @ ascii ''### 6. Entry Points & Data Flow\<newline>''
      @ ascii ''Identify the main entry points of the application.\<newline>''
      @ ascii ''Describe how data flows through the system from input to output.\<newline>''
      @ ascii ''\<newline>''
      @ ascii ''### 7. Architecture Patterns\<newline>''
      @ ascii ''What architectural patterns or design principles are evident in this codebase?\<newline>''
      @ ascii ''\<newline>''
      @ ascii ''### 8. Summary\<newline>''
      @ ascii ''A concise summary of the codebase''
      @ [39]
      @ ascii ''s strengths and overall design quality.''"

subsection \<open>Token-limit constants\<close>

definition MODEL_CONTEXT_LIMIT :: int where
  "MODEL_CONTEXT_LIMIT = 131072"

definition PROMPT_OVERHEAD_TOKENS :: int where
  "PROMPT_OVERHEAD_TOKENS = 8000"

definition MAX_PROMPT_TOKENS :: int where
  "MAX_PROMPT_TOKENS = MODEL_CONTEXT_LIMIT - PROMPT_OVERHEAD_TOKENS"

definition CHUNK_SAFETY_MARGIN :: int where
  "CHUNK_SAFETY_MARGIN = 8000"

definition REDUCE_TOKEN_BUDGET :: int where
  "REDUCE_TOKEN_BUDGET = 90000"

definition REDUCE_BATCH_MAX :: nat where
  "REDUCE_BATCH_MAX = 20"

subsection \<open>Messages, the backend and the observable actions\<close>

datatype role = System | User | Assistant

text \<open>
  A message is a dict with the keys \<open>role\<close> and \<open>content\<close>. Every message the agent
  builds has both, so the default of \<open>m.get("content", "")\<close> is never taken.
\<close>

record message =
  role :: role
  content :: pystr

text \<open>
  The backend, \<open>self.client.chat.completions.create\<close> followed by the read of the first
  choice's content: it returns the generated text (\<open>Inr\<close>) or raises, the text of the
  exception being the \<open>Inl\<close> value. It is a parameter of the model.
\<close>

type_synonym backend = "message list \<Rightarrow> pystr + pystr"

text \<open>
  What a run does besides returning: the requests that reach the backend, and the entries
  into the three stage methods. The functions below return the actions they perform.
  Within one map phase or one reduce round the calls are concurrent; the model lists them
  in submission order.
\<close>

datatype action =
    BackendCall "message list"
  | MapChunk nat                  \<comment> \<open>\<open>_map_chunk\<close> entered, with its chunk index\<close>
  | ReduceBatch nat               \<comment> \<open>\<open>_reduce_batch\<close> entered, with its batch index\<close>
  | FinalSynthesis                \<comment> \<open>\<open>_final_synthesis\<close> entered\<close>

definition call_llm :: "backend \<Rightarrow> message list \<Rightarrow> (error + pystr) \<times> action list" where
  "call_llm llm messages =
     (let total_text = join [32] (map content messages);
          estimated = estimate_tokens total_text in
      if estimated > MODEL_CONTEXT_LIMIT then (Inl (PayloadTooLarge estimated), [])
      else (case llm messages of
              Inr response \<Rightarrow> (Inr response, [BackendCall messages])
            | Inl e \<Rightarrow> (Inl (LLMCallFailed e), [BackendCall messages])))"

subsection \<open>Map and reduce steps\<close>

definition map_chunk ::
  "backend \<Rightarrow> nat \<Rightarrow> nat \<Rightarrow> pystr \<Rightarrow> pystr \<Rightarrow> pystr \<Rightarrow> (error + pystr) \<times> action list" where
  "map_chunk llm chunk_index total_chunks project_path directory_tree code_contents_chunk =
     (let prompt = MAP_CHUNK_PROMPT_format chunk_index total_chunks project_path
                     directory_tree code_contents_chunk;
          messages = [\<lparr>role = System, content = SYSTEM_PROMPT\<rparr>,
                      \<lparr>role = User, content = prompt\<rparr>];
          (r, acts) = call_llm llm messages in
      (r, MapChunk chunk_index # acts))"

text \<open>\<open>f"### Summary {i + 1}\n{s}" for i, s in enumerate(batch)\<close>.\<close>

definition summary_sections :: "pystr list \<Rightarrow> pystr list" where
  "summary_sections batch =
     map (\<lambda>(i, s). ascii ''### Summary '' @ str_of_nat (i + 1) @ [10] @ s)
       (enumerate 0 batch)"

definition reduce_batch ::
  "backend \<Rightarrow> pystr list \<Rightarrow> nat \<Rightarrow> nat \<Rightarrow> pystr \<Rightarrow> pystr \<Rightarrow> (error + pystr) \<times> action list" where
  "reduce_batch llm batch batch_index total_batches project_path directory_tree =
     (let combined = join (ascii ''\<newline>\<newline>---\<newline>\<newline>'') (summary_sections batch);
          prompt = REDUCE_BATCH_PROMPT_format project_path directory_tree combined;
          messages = [\<lparr>role = System, content = SYSTEM_PROMPT\<rparr>,
                      \<lparr>role = User, content = prompt\<rparr>];
          (r, acts) = call_llm llm messages in
      (r, ReduceBatch batch_index # acts))"

subsection \<open>Token-aware batching\<close>

definition reduce_overhead :: int where
  "reduce_overhead =
     estimate_tokens SYSTEM_PROMPT + estimate_tokens (REDUCE_BATCH_PROMPT_format [] [] [])"

definition reduce_available :: int where
  "reduce_available = REDUCE_TOKEN_BUDGET - reduce_overhead"

text \<open>
  The loop of \<open>_build_token_aware_batches\<close>; its state is
  \<open>(batches, current_batch, current_tokens)\<close>.
\<close>

type_synonym batch_state = "pystr list list \<times> pystr list \<times> int"

fun batch_loop :: "int \<Rightarrow> pystr list \<Rightarrow> batch_state \<Rightarrow> batch_state" where
  "batch_loop available [] st = st"
| "batch_loop available (summary # summaries) (batches, current_batch, current_tokens) =
     (let s_tokens = estimate_tokens summary;
          (batches1, current1, tokens1) =
             (if current_batch \<noteq> []
                 \<and> (current_tokens + s_tokens > available
                      \<or> length current_batch \<ge> REDUCE_BATCH_MAX)
              then (batches @ [current_batch], [], 0)
              else (batches, current_batch, current_tokens)) in
      batch_loop available summaries (batches1, current1 @ [summary], tokens1 + s_tokens))"

definition build_token_aware_batches :: "pystr list \<Rightarrow> pystr list list" where
  "build_token_aware_batches summaries =
     (case batch_loop reduce_available summaries ([], [], 0) of
        (batches, current_batch, current_tokens) \<Rightarrow>
          if current_batch \<noteq> [] then batches @ [current_batch] else batches)"

subsection \<open>Progress events\<close>


text \<open>
  A progress event is a dict with a \<open>stage\<close>, a message and the counters of its stage.
  The message of every event but the last is a rendering of its counters; the model
  keeps the counters, the report text and the exception.
\<close>

datatype event =
    Chunking nat                  \<comment> \<open>\<open>total_chunks\<close>\<close>
  | Mapping nat nat               \<comment> \<open>\<open>chunk\<close>, \<open>total\<close>\<close>
  | ReducingRound nat nat nat     \<comment> \<open>\<open>round\<close>, \<open>total_summaries\<close>, \<open>total_batches\<close>; \<open>batch\<close> is 0\<close>
  | ReducingBatch nat nat nat     \<comment> \<open>\<open>round\<close>, \<open>batch\<close>, \<open>total_batches\<close>\<close>
  | Report pystr                  \<comment> \<open>the report text\<close>
  | Error error                   \<comment> \<open>the exception whose text the message carries\<close>


text \<open>
  The events of the first \<open>completed\<close> completions of a round: the running counter goes
  from 1 to \<open>completed\<close>, whichever tasks they were.
\<close>

definition reducing_events :: "nat \<Rightarrow> nat \<Rightarrow> nat \<Rightarrow> event list" where
  "reducing_events reduce_round completed total_batches =
     map (\<lambda>c. ReducingBatch reduce_round c total_batches) [1..<Suc completed]"

definition mapping_events :: "nat \<Rightarrow> nat \<Rightarrow> event list" where
  "mapping_events completed total_chunks =
     map (\<lambda>c. Mapping c total_chunks) [1..<Suc completed]"

subsection \<open>Completion order of concurrent tasks\<close>

text \<open>
  \<open>as_completed\<close> yields the futures of a thread pool in the order in which they finish,
  which the code does not control. The model takes a preference list for each round and
  completes it to a permutation of the task indices \<open>0, ..., n - 1\<close>; every
  permutation is the completion of itself.
\<close>

definition completion_order :: "nat list \<Rightarrow> nat \<Rightarrow> nat list" where
  "completion_order pref n =
     filter (\<lambda>i. i < n) (remdups pref) @ filter (\<lambda>i. i \<notin> set pref) [0..<n]"

text \<open>
  The loop \<open>for future in as_completed(futures): idx, result = future.result(); ...\<close>:
  \<open>future.result()\<close> re-raises the exception of a failed task, which ends the loop.
  \<open>first_error results order k\<close> is the exception met first and the number of tasks
  completed before it, or \<open>None\<close> when every task of \<open>order\<close> succeeded.
\<close>

fun first_error :: "(error + pystr) list \<Rightarrow> nat list \<Rightarrow> nat \<Rightarrow> (error \<times> nat) option" where
  "first_error results [] k = None"
| "first_error results (idx # order) k =
     (case results ! idx of
        Inl e \<Rightarrow> Some (e, k)
      | Inr r \<Rightarrow> first_error results order (Suc k))"

text \<open>The result slots, written by index, once every task succeeded.\<close>

fun slots :: "(error + pystr) list \<Rightarrow> pystr list" where
  "slots [] = []"
| "slots (Inr r # rs) = r # slots rs"
| "slots (Inl e # rs) = [] # slots rs"

subsection \<open>Hierarchical reduce\<close>

text \<open>
  The tasks of one reduce round, \<open>_batch_task\<close> for every \<open>(i, batch)\<close> of
  \<open>enumerate(batches)\<close>: each is a \<open>_reduce_batch\<close> with the 1-based batch index.
\<close>

definition reduce_outcomes ::
  "backend \<Rightarrow> pystr \<Rightarrow> pystr \<Rightarrow> pystr list list \<Rightarrow> ((error + pystr) \<times> action list) list" where
  "reduce_outcomes llm project_path directory_tree batches =
     map (\<lambda>(i, batch).
            reduce_batch llm batch (i + 1) (length batches) project_path directory_tree)
       (enumerate 0 batches)"


text \<open>
  One reduce round calls the backend once per batch and recurses on the intermediate
  summaries while more than one remains. Nothing in the code bounds the number of rounds,
  so the model takes a bound \<open>fuel\<close> on them and returns \<open>None\<close> when a further round
  would be needed. A result is the returned summary or the exception, the progress events
  passed to the callback, and the actions performed. \<open>sched\<close> gives the completion
  preference of each round.
\<close>

type_synonym 'a outcome = "(error + 'a) \<times> event list \<times> action list"

fun hierarchical_reduce ::
  "nat \<Rightarrow> backend \<Rightarrow> (nat \<Rightarrow> nat list) \<Rightarrow> pystr \<Rightarrow> pystr \<Rightarrow> pystr list \<Rightarrow> nat
     \<Rightarrow> pystr outcome option" where
  "hierarchical_reduce 0 llm sched project_path directory_tree summaries reduce_round =
     (if length summaries = 1 then Some (Inr (summaries ! 0), [], []) else None)"
| "hierarchical_reduce (Suc fuel) llm sched project_path directory_tree summaries reduce_round =
     (if length summaries = 1 then Some (Inr (summaries ! 0), [], [])
      else
        (let batches = build_token_aware_batches summaries;
             total_batches = length batches;
             started = ReducingRound reduce_round (length summaries) total_batches;
             max_workers = min total_batches 8 in
         if max_workers = 0 then Some (Inl MaxWorkersZero, [started], [])
         else
           (let outcomes = reduce_outcomes llm project_path directory_tree batches;
                results = map fst outcomes;
                acts = concat (map snd outcomes) in
            case first_error results (completion_order (sched reduce_round) total_batches) 0 of
              Some (e, completed) \<Rightarrow>
                Some (Inl e,
                      started # reducing_events reduce_round completed total_batches,
                      acts)
            | None \<Rightarrow>
                (let intermediate = slots results;
                     evs = started # reducing_events reduce_round total_batches total_batches in
                 if length intermediate > 1 then
                   (case hierarchical_reduce fuel llm sched project_path directory_tree
                           intermediate (reduce_round + 1) of
                      None \<Rightarrow> None
                    | Some (r, evs', acts') \<Rightarrow> Some (r, evs @ evs', acts @ acts'))
                 else Some (Inr (intermediate ! 0), evs, acts)))))"

declare hierarchical_reduce.simps [simp del]

definition final_synthesis ::
  "backend \<Rightarrow> pystr \<Rightarrow> pystr \<Rightarrow> pystr \<Rightarrow> nat \<Rightarrow> (error + pystr) \<times> action list" where
  "final_synthesis llm project_path directory_tree consolidated_summary total_original_chunks =
     (let prompt = REDUCE_SYNTHESIS_PROMPT_format total_original_chunks project_path
                     directory_tree consolidated_summary;
          messages = [\<lparr>role = System, content = SYSTEM_PROMPT\<rparr>,
                      \<lparr>role = User, content = prompt\<rparr>];
          (r, acts) = call_llm llm messages in
      (r, FinalSynthesis # acts))"

subsection \<open>The streaming driver\<close>

text \<open>The dict returned by \<open>scan_project\<close>, as far as the agent reads it.\<close>

record scan_result =
  project_path :: pystr
  directory_tree :: pystr
  code_contents :: pystr

text \<open>The state of a \<open>CodebaseAnalysisAgent\<close>.\<close>

record agent =
  conversation_history :: "message list"
  agent_project_path :: "pystr option"
  agent_scan_result :: "scan_result option"

definition single_call_tokens :: "scan_result \<Rightarrow> int" where
  "single_call_tokens sr =
     estimate_tokens SYSTEM_PROMPT
       + estimate_tokens (INITIAL_ANALYSIS_PROMPT_format (project_path sr) (directory_tree sr)
            (code_contents sr))"

definition dynamic_chunk_budget :: "scan_result \<Rightarrow> int" where
  "dynamic_chunk_budget sr =
     (let map_prompt_overhead =
            estimate_tokens SYSTEM_PROMPT
              + estimate_tokens (MAP_CHUNK_PROMPT_format 1 1 (project_path sr)
                   (directory_tree sr) []) in
      max 1000 (MODEL_CONTEXT_LIMIT - map_prompt_overhead - CHUNK_SAFETY_MARGIN))"

text \<open>
  The tasks of the map phase, \<open>_map_task\<close> for every \<open>(i, chunk)\<close> of
  \<open>enumerate(chunks)\<close>: each is a \<open>_map_chunk\<close> with the 1-based chunk index.
\<close>

definition map_outcomes ::
  "backend \<Rightarrow> scan_result \<Rightarrow> pystr list \<Rightarrow> ((error + pystr) \<times> action list) list" where
  "map_outcomes llm sr chunks =
     map (\<lambda>(i, chunk).
            map_chunk llm (i + 1) (length chunks) (project_path sr) (directory_tree sr) chunk)
       (enumerate 0 chunks)"

text \<open>
  The map phase: one \<open>_map_chunk\<close> per chunk on a thread pool, a \<open>mapping\<close> event per
  completed chunk. The announcing event is yielded before the pool is created.
\<close>

definition map_phase ::
  "backend \<Rightarrow> nat list \<Rightarrow> scan_result \<Rightarrow> pystr list \<Rightarrow> (pystr list) outcome" where
  "map_phase llm pref sr chunks =
     (let total_chunks = length chunks;
          max_workers = min total_chunks 8;
          announced = Mapping 0 total_chunks in
      if max_workers = 0 then (Inl MaxWorkersZero, [announced], [])
      else
        (let outcomes = map_outcomes llm sr chunks;
             results = map fst outcomes;
             acts = concat (map snd outcomes) in
         case first_error results (completion_order pref total_chunks) 0 of
           Some (e, completed) \<Rightarrow>
             (Inl e, announced # mapping_events completed total_chunks, acts)
         | None \<Rightarrow>
             (Inr (slots results),
              announced # mapping_events total_chunks total_chunks, acts)))"

text \<open>
  \<open>_run_reduce\<close>, the body of the background thread: the hierarchical reduce, then the
  final synthesis; an exception of either is kept in \<open>reduce_error\<close>. The events are
  those put on the queue before the sentinel.
\<close>

definition run_reduce ::
  "nat \<Rightarrow> backend \<Rightarrow> (nat \<Rightarrow> nat list) \<Rightarrow> scan_result \<Rightarrow> pystr list \<Rightarrow> nat
     \<Rightarrow> pystr outcome option" where
  "run_reduce fuel llm sched sr chunk_summaries total_chunks =
     (case hierarchical_reduce fuel llm sched (project_path sr) (directory_tree sr)
             chunk_summaries 1 of
        None \<Rightarrow> None
      | Some (Inl exc, evs, acts) \<Rightarrow> Some (Inl exc, evs, acts)
      | Some (Inr consolidated, evs, acts) \<Rightarrow>
          (case final_synthesis llm (project_path sr) (directory_tree sr) consolidated
                  total_chunks of
             (r, acts') \<Rightarrow> Some (r, evs, acts @ acts')))"

text \<open>The compact history stored after a map-reduce run.\<close>

definition compact_history :: "scan_result \<Rightarrow> pystr \<Rightarrow> message list" where
  "compact_history sr final_report =
     [\<lparr>role = System, content = SYSTEM_PROMPT\<rparr>,
      \<lparr>role = User, content =
         ascii ''I have analysed the codebase at '' @ project_path sr
         @ ascii ''. Here is the full analysis report. Please use it to answer ''
         @ ascii ''any follow-up questions I ask.\<newline>\<newline>''
         @ ascii ''## Directory Structure\<newline>```\<newline>'' @ directory_tree sr
         @ ascii ''\<newline>```\<newline>\<newline>''
         @ ascii ''## Analysis Report\<newline>'' @ final_report\<rparr>,
      \<lparr>role = Assistant, content =
         ascii ''Understood. I have reviewed the full analysis report and the ''
         @ ascii ''directory structure. I'' @ [39] @ ascii ''m ready to answer any follow-up questions ''
         @ ascii ''about this codebase.''\<rparr>]"

text \<open>
  \<open>analyze_project_stream\<close>. The outcome of \<open>scan_project\<close> is an input: the scan is a
  walk of the file system. The result is the sequence of events the generator yields, the
  agent afterwards and the actions performed; \<open>None\<close> when the reduce needs more rounds
  than \<open>fuel\<close>. Every exception raised inside the \<open>try\<close> block ends the stream with an
  \<open>error\<close> event. The generator is taken to be run to its end by its consumer.
\<close>

definition analyze_project_stream ::
  "nat \<Rightarrow> backend \<Rightarrow> (nat \<Rightarrow> nat list) \<Rightarrow> error + scan_result \<Rightarrow> agent
     \<Rightarrow> (event list \<times> agent \<times> action list) option" where
  "analyze_project_stream fuel llm sched scan ag =
     (case scan of
        Inl exc \<Rightarrow> Some ([Error exc], ag, [])
      | Inr sr \<Rightarrow>
          (let ag1 = ag\<lparr>agent_scan_result := Some sr,
                        agent_project_path := Some (project_path sr)\<rparr>;
               full_user_prompt = INITIAL_ANALYSIS_PROMPT_format (project_path sr)
                                    (directory_tree sr) (code_contents sr) in
           if single_call_tokens sr \<le> MAX_PROMPT_TOKENS then
             (let history = [\<lparr>role = System, content = SYSTEM_PROMPT\<rparr>,
                             \<lparr>role = User, content = full_user_prompt\<rparr>];
                  ag2 = ag1\<lparr>conversation_history := history\<rparr>;
                  evs = [Chunking 1, Mapping 1 1] in
              case call_llm llm history of
                (Inl exc, acts) \<Rightarrow> Some (evs @ [Error exc], ag2, acts)
              | (Inr final_report, acts) \<Rightarrow>
                  Some (evs @ [Report final_report],
                        ag2\<lparr>conversation_history :=
                               history @ [\<lparr>role = Assistant, content = final_report\<rparr>]\<rparr>,
                        acts))
           else
             (case chunk_text (code_contents sr) (dynamic_chunk_budget sr) of
                Inl exc \<Rightarrow> Some ([Error exc], ag1, [])
              | Inr chunks \<Rightarrow>
                  (let total_chunks = length chunks;
                       chunked = Chunking total_chunks in
                   case map_phase llm (sched 0) sr chunks of
                     (Inl exc, mevs, macts) \<Rightarrow>
                       Some (chunked # mevs @ [Error exc], ag1, macts)
                   | (Inr chunk_summaries, mevs, macts) \<Rightarrow>
                       (case run_reduce fuel llm sched sr chunk_summaries total_chunks of
                          None \<Rightarrow> None
                        | Some (Inl exc, revs, racts) \<Rightarrow>
                            Some (chunked # mevs @ revs @ [Error exc], ag1, macts @ racts)
                        | Some (Inr final_report, revs, racts) \<Rightarrow>
                            Some (chunked # mevs @ revs @ [Report final_report],
                                  ag1\<lparr>conversation_history := compact_history sr final_report\<rparr>,
                                  macts @ racts))))))"

subsection \<open>Follow-up questions\<close>

text \<open>
  \<open>ask\<close>: the result or the exception, the agent afterwards, and the actions performed.
  The question is appended to the history before the backend is called.
\<close>

definition ask :: "backend \<Rightarrow> pystr \<Rightarrow> agent \<Rightarrow> (error + pystr) \<times> agent \<times> action list" where
  "ask llm question ag =
     (if conversation_history ag = [] then (Inl NoProjectAnalyzed, ag, [])
      else
        (let ag1 = ag\<lparr>conversation_history :=
                        conversation_history ag @ [\<lparr>role = User, content = question\<rparr>]\<rparr> in
         case call_llm llm (conversation_history ag1) of
           (Inl exc, acts) \<Rightarrow> (Inl exc, ag1, acts)
         | (Inr answer, acts) \<Rightarrow>
             (Inr answer,
              ag1\<lparr>conversation_history :=
                     conversation_history ag1 @ [\<lparr>role = Assistant, content = answer\<rparr>]\<rparr>,
              acts)))"

definition reset :: "agent \<Rightarrow> agent" where
  "reset ag = \<lparr>conversation_history = [], agent_project_path = None, agent_scan_result = None\<rparr>"

subsection \<open>Notions used to state the properties of the batcher\<close>

text \<open>The combined estimate of a batch, as the batcher accumulates it.\<close>

definition batch_tokens :: "pystr list \<Rightarrow> int" where
  "batch_tokens batch = sum_list (map estimate_tokens batch)"

text \<open>
  A well-formed batch for an available size: not empty, at most \<open>REDUCE_BATCH_MAX\<close>
  summaries, and either within the available size or one oversized summary alone.
\<close>

definition batch_fits :: "int \<Rightarrow> pystr list \<Rightarrow> bool" where
  "batch_fits available batch \<longleftrightarrow>
     batch \<noteq> [] \<and> length batch \<le> REDUCE_BATCH_MAX
     \<and> (batch_tokens batch \<le> available
          \<or> (length batch = 1 \<and> estimate_tokens (hd batch) > available))"

definition batch_inv :: "int \<Rightarrow> batch_state \<Rightarrow> bool" where
  "batch_inv available st =
     (case st of (batches, current_batch, current_tokens) \<Rightarrow>
        (\<forall>b \<in> set batches. batch_fits available b)
        \<and> current_tokens = batch_tokens current_batch
        \<and> (current_batch = [] \<or> batch_fits available current_batch))"

definition batch_content :: "batch_state \<Rightarrow> pystr list" where
  "batch_content st =
     (case st of (batches, current_batch, current_tokens) \<Rightarrow> concat batches @ current_batch)"


text \<open>A summary of 300000 characters, which alone exceeds the available size.\<close>

definition oversized_summary :: pystr where
  "oversized_summary = replicate 300000 120"

subsection \<open>A backend whose summaries never fit together\<close>

text \<open>
  A summary of 150000 characters, 50000 tokens by the estimate: two of them exceed the
  available size of a batch. The backend \<open>echo_backend\<close> answers every request with it.
  \<open>in_order\<close> is the schedule with no preference: tasks complete in submission order.
\<close>

definition big_summary :: pystr where
  "big_summary = replicate 150000 120"

definition echo_backend :: backend where
  "echo_backend messages = Inr big_summary"

definition in_order :: "nat \<Rightarrow> nat list" where
  "in_order reduce_round = []"

subsection \<open>A run whose reduce call fails\<close>




definition fresh_agent :: agent where
  "fresh_agent =
     \<lparr>conversation_history = [], agent_project_path = None, agent_scan_result = None\<rparr>"

subsection \<open>A single-call run whose backend call fails\<close>

text \<open>
  A small project, which fits one call; a backend that fails on a request of two messages,
  as the analysis request is, and answers any other; and the agent that the failed run
  leaves behind.
\<close>

definition small_scan :: scan_result where
  "small_scan = \<lparr>project_path = [47, 112], directory_tree = [47, 112],
                  code_contents = [120, 32, 61, 32, 49]\<rparr>"

definition flaky_backend :: backend where
  "flaky_backend messages = (if length messages = 2 then Inl [33] else Inr [121])"

definition failed_run_agent :: agent where
  "failed_run_agent =
     \<lparr>conversation_history =
        [\<lparr>role = System, content = SYSTEM_PROMPT\<rparr>,
         \<lparr>role = User, content =
            INITIAL_ANALYSIS_PROMPT_format (project_path small_scan) (directory_tree small_scan)
              (code_contents small_scan)\<rparr>],
      agent_project_path = Some (project_path small_scan),
      agent_scan_result = Some small_scan\<rparr>"

section \<open>Properties of the scanner functions\<close>

lemma concat_splitlines_from: "concat (splitlines_from cur rest) = cur @ rest"
  by (induction cur rest rule: splitlines_from.induct) auto

lemma concat_splitlines: "concat (splitlines text) = text"
  by (simp add: splitlines_def concat_splitlines_from)

lemma concat_hard_split_from:
  "0 < m \<Longrightarrow> concat (hard_split_from line m start) = drop start line"
proof (induction line m start rule: hard_split_from.induct)
  case (1 line m start)
  show ?case
  proof (cases "start < length line")
    case True
    with 1 have "concat (hard_split_from line m start)
        = take m (drop start line) @ drop (start + m) line"
      by (subst hard_split_from.simps) simp
    also have "\<dots> = drop start line"
      by (metis add.commute append_take_drop_id drop_drop)
    finally show ?thesis .
  next
    case False
    then show ?thesis by (subst hard_split_from.simps) simp
  qed
qed

lemma length_hard_split_from:
  "p \<in> set (hard_split_from line m start) \<Longrightarrow> length p \<le> m"
proof (induction line m start rule: hard_split_from.induct)
  case (1 line m start)
  show ?case
  proof (cases "0 < m \<and> start < length line")
    case True
    with "1.prems" have "p = take m (drop start line) \<or> p \<in> set (hard_split_from line m (start + m))"
      by (subst (asm) hard_split_from.simps) simp
    then show ?thesis
    proof
      assume "p = take m (drop start line)"
      then show ?thesis by simp
    next
      assume "p \<in> set (hard_split_from line m (start + m))"
      with True show ?thesis by (rule "1.IH")
    qed
  next
    case False
    with "1.prems" show ?thesis by (subst (asm) hard_split_from.simps) simp
  qed
qed

lemma hard_split_pos:
  assumes "0 < max_chars"
  shows "\<exists>pieces. hard_split line max_chars = Inr pieces \<and> concat pieces = line
           \<and> (\<forall>p \<in> set pieces. int (length p) \<le> max_chars)"
proof -
  from assms have m: "0 < nat max_chars" by simp
  have "concat (hard_split_from line (nat max_chars) 0) = line"
    using concat_hard_split_from [OF m, of line 0] by simp
  moreover have "\<forall>p \<in> set (hard_split_from line (nat max_chars) 0). int (length p) \<le> max_chars"
  proof
    fix p assume "p \<in> set (hard_split_from line (nat max_chars) 0)"
    then have "length p \<le> nat max_chars" by (rule length_hard_split_from)
    with assms show "int (length p) \<le> max_chars" by linarith
  qed
  ultimately show ?thesis using assms by (simp add: hard_split_def)
qed

lemma chunk_loop_pos:
  assumes "0 < max_chars"
  shows "chunk_inv max_chars st \<Longrightarrow>
         \<exists>st'. chunk_loop max_chars lines st = Inr st' \<and> chunk_inv max_chars st'
            \<and> chunk_content st' = chunk_content st @ concat lines"
proof (induction lines arbitrary: st)
  case Nil
  then show ?case by simp
next
  case (Cons line lines)
  obtain chunks cur clen where st: "st = (chunks, cur, clen)"
    by (cases st) auto
  from Cons.prems st have inv: "\<forall>c \<in> set chunks. int (length c) \<le> max_chars"
    "clen = int (length (concat cur))" "clen \<le> max_chars"
    by (auto simp: chunk_inv_def)
  show ?case
  proof (cases "int (length line) > max_chars")
    case True
    obtain pieces where p: "hard_split line max_chars = Inr pieces" "concat pieces = line"
      "\<forall>p \<in> set pieces. int (length p) \<le> max_chars"
      using hard_split_pos [OF assms, of line] by blast
    let ?chunks1 = "if cur \<noteq> [] then chunks @ [concat cur] else chunks"
    let ?st1 = "(?chunks1 @ pieces, if cur \<noteq> [] then [] else cur, if cur \<noteq> [] then 0 else clen)"
    have step: "chunk_loop max_chars (line # lines) st = chunk_loop max_chars lines ?st1"
      using True p(1) by (simp add: st)
    have inv1: "chunk_inv max_chars ?st1"
      using inv p(3) assms by (auto simp: chunk_inv_def)
    have cont1: "chunk_content ?st1 = chunk_content st @ line"
      using p(2) by (auto simp: chunk_content_def st)
    from Cons.IH [OF inv1] obtain st' where
      "chunk_loop max_chars lines ?st1 = Inr st'" "chunk_inv max_chars st'"
      "chunk_content st' = chunk_content ?st1 @ concat lines"
      by blast
    with step cont1 show ?thesis by simp
  next
    case False
    note small = this
    show ?thesis
    proof (cases "clen + int (length line) > max_chars")
      case True
      let ?st1 = "(chunks @ [concat cur], [line], int (length line))"
      have step: "chunk_loop max_chars (line # lines) st = chunk_loop max_chars lines ?st1"
        using True small by (simp add: st)
      have inv1: "chunk_inv max_chars ?st1"
        using inv small by (auto simp: chunk_inv_def)
      have cont1: "chunk_content ?st1 = chunk_content st @ line"
        by (simp add: chunk_content_def st)
      from Cons.IH [OF inv1] obtain st' where
        "chunk_loop max_chars lines ?st1 = Inr st'" "chunk_inv max_chars st'"
        "chunk_content st' = chunk_content ?st1 @ concat lines"
        by blast
      with step cont1 show ?thesis by simp
    next
      case False
      let ?st1 = "(chunks, cur @ [line], clen + int (length line))"
      have step: "chunk_loop max_chars (line # lines) st = chunk_loop max_chars lines ?st1"
        using False small by (simp add: st)
      have inv1: "chunk_inv max_chars ?st1"
        using inv False by (auto simp: chunk_inv_def)
      have cont1: "chunk_content ?st1 = chunk_content st @ line"
        by (simp add: chunk_content_def st)
      from Cons.IH [OF inv1] obtain st' where
        "chunk_loop max_chars lines ?st1 = Inr st'" "chunk_inv max_chars st'"
        "chunk_content st' = chunk_content ?st1 @ concat lines"
        by blast
      with step cont1 show ?thesis by simp
    qed
  qed
qed

lemma chunk_text_pos:
  assumes "0 < B"
  shows "\<exists>chunks. chunk_text T B = Inr chunks \<and> concat chunks = T
           \<and> (\<forall>c \<in> set chunks. int (length c) \<le> B * CHARS_PER_TOKEN)"
proof (cases "int (length T) \<le> B * CHARS_PER_TOKEN")
  case True
  then show ?thesis by (simp add: chunk_text_def)
next
  case False
  from assms have mc: "0 < B * CHARS_PER_TOKEN" by (simp add: CHARS_PER_TOKEN_def)
  have "chunk_inv (B * CHARS_PER_TOKEN) ([], [], 0)"
    using mc by (simp add: chunk_inv_def)
  from chunk_loop_pos [OF mc this, of "splitlines T"]
  obtain chunks cur clen where
    r: "chunk_loop (B * CHARS_PER_TOKEN) (splitlines T) ([], [], 0) = Inr (chunks, cur, clen)"
    and i: "chunk_inv (B * CHARS_PER_TOKEN) (chunks, cur, clen)"
    and c: "chunk_content (chunks, cur, clen) = chunk_content ([], [], 0) @ concat (splitlines T)"
    by (metis prod_cases3)
  from c have "concat chunks @ concat cur = T"
    by (simp add: chunk_content_def concat_splitlines)
  with r i False show ?thesis
    by (auto simp: chunk_text_def chunk_inv_def)
qed

lemma estimate_tokens_le:
  "int (length c) \<le> B * CHARS_PER_TOKEN \<Longrightarrow> estimate_tokens c \<le> max 0 B"
  by (auto simp: estimate_tokens_def CHARS_PER_TOKEN_def)

text \<open>
  C1. For every text \<open>T\<close> and every budget \<open>B > 0\<close>, \<open>chunk_text(T, B)\<close> returns, and
  the chunks it returns, concatenated in order, are \<open>T\<close> again; the pieces of a hard-split
  line are among them.
\<close>

theorem chunk_text_reconstructs:
  "0 < B \<Longrightarrow> \<exists>chunks. chunk_text T B = Inr chunks \<and> concat chunks = T"
  using chunk_text_pos [of B T] by blast

theorem chunk_text_reconstructs_witness:
  "(0::int) < 1 \<and>
   (\<exists>chunks. chunk_text [97, 98, 99, 100, 101, 102, 103, 10, 104, 105, 10, 106] 1 = Inr chunks
      \<and> concat chunks = [97, 98, 99, 100, 101, 102, 103, 10, 104, 105, 10, 106])"
  using chunk_text_reconstructs [of 1 "[97, 98, 99, 100, 101, 102, 103, 10, 104, 105, 10, 106]"]
  by simp

text \<open>
  C4. For every text \<open>T\<close> and budget \<open>B > 0\<close>, every chunk of \<open>chunk_text(T, B)\<close> has an
  estimate of at most \<open>B\<close> tokens. The pieces of a hard-split line are cut to at most
  \<open>B * CHARS_PER_TOKEN\<close> characters, so the bound holds for them as well and no chunk
  has to be excepted.
\<close>

theorem chunk_text_within_budget:
  "0 < B \<Longrightarrow>
   \<exists>chunks. chunk_text T B = Inr chunks \<and> (\<forall>c \<in> set chunks. estimate_tokens c \<le> B)"
proof -
  assume B: "0 < B"
  from chunk_text_pos [OF B, of T] obtain chunks where
    c: "chunk_text T B = Inr chunks"
    "\<forall>c \<in> set chunks. int (length c) \<le> B * CHARS_PER_TOKEN"
    by blast
  have "\<forall>c \<in> set chunks. estimate_tokens c \<le> B"
  proof
    fix c assume "c \<in> set chunks"
    with c(2) have "estimate_tokens c \<le> max 0 B" by (simp add: estimate_tokens_le)
    with B show "estimate_tokens c \<le> B" by simp
  qed
  with c(1) show ?thesis by blast
qed

theorem chunk_text_within_budget_witness:
  "(0::int) < 1 \<and>
   (\<exists>chunks. chunk_text [97, 98, 99, 100, 101, 102, 103, 10, 104, 105, 10, 106] 1 = Inr chunks
      \<and> (\<forall>c \<in> set chunks. estimate_tokens c \<le> 1))"
  using chunk_text_within_budget [of 1 "[97, 98, 99, 100, 101, 102, 103, 10, 104, 105, 10, 106]"]
  by simp

text \<open>
  The chunks of that text at a budget of one token (three characters): the first line is
  hard-split, the two short lines are closed one by one.
\<close>

lemma chunk_text_example:
  "chunk_text [97, 98, 99, 100, 101, 102, 103, 10, 104, 105, 10, 106] 1
     = Inr [[97, 98, 99], [100, 101, 102], [103, 10], [104, 105, 10], [106]]"
  by (simp add: chunk_text_def splitlines_def is_linebreak_def CHARS_PER_TOKEN_def
      hard_split_def hard_split_from.simps)

text \<open>
  C8, as stated: a text whose estimate is within \<open>max_tokens\<close> is returned unchanged.
  The guard of \<open>truncate_to_token_limit\<close> compares the length in characters with
  \<open>max_tokens * CHARS_PER_TOKEN\<close>, while the estimate rounds the length down: a text of
  four characters estimates to one token and is cut to three characters at a limit of one.
\<close>

theorem truncate_within_estimate_counterexample:
  "estimate_tokens [97, 98, 99, 100] \<le> 1
   \<and> truncate_to_token_limit [97, 98, 99, 100] 1 [] \<noteq> [97, 98, 99, 100]"
  by (simp add: estimate_tokens_def truncate_to_token_limit_def slice_to_def
      CHARS_PER_TOKEN_def)

text \<open>
  C8, amended: a text of at most \<open>max_tokens * CHARS_PER_TOKEN\<close> characters is returned
  unchanged, whatever the notice.
\<close>

theorem truncate_noop_within_chars:
  "int (length text) \<le> max_tokens * CHARS_PER_TOKEN \<Longrightarrow>
   truncate_to_token_limit text max_tokens notice = text"
  by (simp add: truncate_to_token_limit_def)

theorem truncate_noop_within_chars_witness:
  "int (length [97, 98, 99 :: nat]) \<le> 1 * CHARS_PER_TOKEN
   \<and> truncate_to_token_limit [97, 98, 99] 1 [46, 46, 46] = [97, 98, 99]"
  using truncate_noop_within_chars [of "[97, 98, 99]" 1 "[46, 46, 46]"]
  by (simp add: CHARS_PER_TOKEN_def)

text \<open>
  In terms of the estimate: an estimate strictly below the limit is enough for the text
  to be returned unchanged, and the character bound implies that the estimate is within
  the limit.
\<close>

lemma truncate_noop_below_estimate:
  "estimate_tokens text < max_tokens \<Longrightarrow> truncate_to_token_limit text max_tokens notice = text"
proof -
  assume "estimate_tokens text < max_tokens"
  then have "int (length text) div 3 < max_tokens"
    by (simp add: estimate_tokens_def CHARS_PER_TOKEN_def)
  then have "int (length text) \<le> max_tokens * CHARS_PER_TOKEN"
    unfolding CHARS_PER_TOKEN_def by linarith
  then show ?thesis by (simp add: truncate_to_token_limit_def)
qed

lemma chars_within_imp_estimate_within:
  "int (length text) \<le> max_tokens * CHARS_PER_TOKEN \<Longrightarrow> estimate_tokens text \<le> max 0 max_tokens"
  by (rule estimate_tokens_le)

section \<open>Properties of the agent\<close>

subsection \<open>The pre-flight guard\<close>

lemma call_llm_too_large:
  "estimate_tokens (join [32] (map content messages)) > MODEL_CONTEXT_LIMIT \<Longrightarrow>
   call_llm llm messages
     = (Inl (PayloadTooLarge (estimate_tokens (join [32] (map content messages)))), [])"
  by (simp add: call_llm_def)

lemma call_llm_within:
  "\<not> estimate_tokens (join [32] (map content messages)) > MODEL_CONTEXT_LIMIT \<Longrightarrow>
   call_llm llm messages
     = (case llm messages of
          Inr response \<Rightarrow> (Inr response, [BackendCall messages])
        | Inl e \<Rightarrow> (Inl (LLMCallFailed e), [BackendCall messages]))"
  by (simp add: call_llm_def)


text \<open>
  C3. For every message list, \<open>_call_llm\<close> raises the payload error, which carries the
  estimate, without a request to the backend whenever the estimate of the joined message
  contents exceeds \<open>MODEL_CONTEXT_LIMIT = 131072\<close>; and a request that reaches the backend
  is the given message list, with an estimate within that limit.
\<close>

theorem call_llm_preflight_guard:
  "MODEL_CONTEXT_LIMIT = 131072
   \<and> (estimate_tokens (join [32] (map content messages)) > MODEL_CONTEXT_LIMIT \<longrightarrow>
        call_llm llm messages
          = (Inl (PayloadTooLarge (estimate_tokens (join [32] (map content messages)))), []))
   \<and> (BackendCall sent \<in> set (snd (call_llm llm messages)) \<longrightarrow>
        sent = messages
        \<and> estimate_tokens (join [32] (map content sent)) \<le> MODEL_CONTEXT_LIMIT)"
  by (auto simp: call_llm_def Let_def MODEL_CONTEXT_LIMIT_def split: sum.splits if_splits)

theorem call_llm_preflight_guard_witness:
  "estimate_tokens (join [32] (map content
       [\<lparr>role = System, content = [97]\<rparr>, \<lparr>role = User, content = replicate 400000 98\<rparr>]))
     > MODEL_CONTEXT_LIMIT
   \<and> call_llm (\<lambda>m. Inr [99])
        [\<lparr>role = System, content = [97]\<rparr>, \<lparr>role = User, content = replicate 400000 98\<rparr>]
      = (Inl (PayloadTooLarge 133334), [])
   \<and> BackendCall [\<lparr>role = User, content = [97, 98, 99]\<rparr>]
        \<in> set (snd (call_llm (\<lambda>m. Inr [99]) [\<lparr>role = User, content = [97, 98, 99]\<rparr>]))
   \<and> estimate_tokens (join [32] (map content [\<lparr>role = User, content = [97, 98, 99]\<rparr>]))
        \<le> MODEL_CONTEXT_LIMIT"
proof -
  let ?big = "[\<lparr>role = System, content = [97]\<rparr>, \<lparr>role = User, content = replicate 400000 98\<rparr>]"
  let ?small = "[\<lparr>role = User, content = [97, 98, 99]\<rparr>]"
  let ?llm = "\<lambda>m :: message list. Inr [99] :: pystr + pystr"
  have e1: "estimate_tokens (join [32] (map content ?big)) = 133334"
    by (simp add: estimate_tokens_def CHARS_PER_TOKEN_def)
  have h1: "estimate_tokens (join [32] (map content ?big)) > MODEL_CONTEXT_LIMIT"
    unfolding e1 by (simp add: MODEL_CONTEXT_LIMIT_def)
  have e2: "estimate_tokens (join [32] (map content ?small)) = 1"
    by (simp add: estimate_tokens_def CHARS_PER_TOKEN_def)
  have c2: "call_llm ?llm ?small = (Inr [99], [BackendCall ?small])"
    unfolding call_llm_def Let_def e2 by (simp add: MODEL_CONTEXT_LIMIT_def)
  have h2: "BackendCall ?small \<in> set (snd (call_llm ?llm ?small))"
    unfolding c2 by simp
  note g1 = call_llm_preflight_guard [of ?big ?llm "[]"]
  note g2 = call_llm_preflight_guard [of ?small ?llm ?small]
  have r1: "call_llm ?llm ?big = (Inl (PayloadTooLarge 133334), [])"
    using mp [OF conjunct1 [OF conjunct2 [OF g1]] h1] unfolding e1 .
  have r2: "estimate_tokens (join [32] (map content ?small)) \<le> MODEL_CONTEXT_LIMIT"
    using mp [OF conjunct2 [OF conjunct2 [OF g2]] h2] by (rule conjunct2)
  show ?thesis using h1 r1 h2 r2 by (intro conjI)
qed

subsection \<open>Follow-up questions\<close>

text \<open>
  The guard of \<open>ask\<close> and its success case. On an agent with an empty conversation
  history \<open>ask\<close> raises without a request to the backend and leaves the agent as it was.
  On a non-empty history, when the call of the backend returns an answer, \<open>ask\<close> returns
  that answer and the history has grown by exactly the question and the answer.
\<close>

theorem ask_session_contract:
  "(conversation_history ag = [] \<longrightarrow> ask llm question ag = (Inl NoProjectAnalyzed, ag, []))
   \<and> (conversation_history ag \<noteq> []
        \<and> call_llm llm (conversation_history ag @ [\<lparr>role = User, content = question\<rparr>])
            = (Inr answer, acts) \<longrightarrow>
      (\<exists>ag'. ask llm question ag = (Inr answer, ag', acts)
         \<and> conversation_history ag'
             = conversation_history ag
                 @ [\<lparr>role = User, content = question\<rparr>, \<lparr>role = Assistant, content = answer\<rparr>]
         \<and> length (conversation_history ag') = length (conversation_history ag) + 2))"
  by (simp add: ask_def)

theorem ask_session_contract_witness:
  "ask (\<lambda>m. Inr [121]) [113]
       \<lparr>conversation_history = [], agent_project_path = None, agent_scan_result = None\<rparr>
     = (Inl NoProjectAnalyzed,
        \<lparr>conversation_history = [], agent_project_path = None, agent_scan_result = None\<rparr>, [])
   \<and> (\<exists>ag'. ask (\<lambda>m. Inr [121]) [113]
               \<lparr>conversation_history = [\<lparr>role = System, content = [115]\<rparr>],
                agent_project_path = None, agent_scan_result = None\<rparr>
             = (Inr [121], ag',
                [BackendCall [\<lparr>role = System, content = [115]\<rparr>, \<lparr>role = User, content = [113]\<rparr>]])
         \<and> length (conversation_history ag') = 3)"
  using ask_session_contract [of
      "\<lparr>conversation_history = [], agent_project_path = None, agent_scan_result = None\<rparr>"
      "\<lambda>m. Inr [121]" "[113]" "[]" "[]"]
    ask_session_contract [of
      "\<lparr>conversation_history = [\<lparr>role = System, content = [115]\<rparr>],
        agent_project_path = None, agent_scan_result = None\<rparr>"
      "\<lambda>m. Inr [121]" "[113]" "[121]"
      "[BackendCall [\<lparr>role = System, content = [115]\<rparr>, \<lparr>role = User, content = [113]\<rparr>]]"]
  by (auto simp: call_llm_def estimate_tokens_def CHARS_PER_TOKEN_def MODEL_CONTEXT_LIMIT_def)

text \<open>
  C10. \<open>ask\<close> is not atomic: when the call of the backend, or the guard before it, raises
  on a non-empty history, \<open>ask\<close> raises the same exception and the agent keeps the
  history extended by exactly the unanswered question.
\<close>

theorem ask_failure_keeps_question:
  "conversation_history ag \<noteq> [] \<Longrightarrow>
   call_llm llm (conversation_history ag @ [\<lparr>role = User, content = question\<rparr>])
     = (Inl exc, acts) \<Longrightarrow>
   ask llm question ag
     = (Inl exc,
        ag\<lparr>conversation_history :=
             conversation_history ag @ [\<lparr>role = User, content = question\<rparr>]\<rparr>,
        acts)
   \<and> length (conversation_history (fst (snd (ask llm question ag))))
       = length (conversation_history ag) + 1"
  by (simp add: ask_def)

theorem ask_failure_keeps_question_witness:
  "ask (\<lambda>m. Inl [33]) [113]
       \<lparr>conversation_history = [\<lparr>role = System, content = [115]\<rparr>],
        agent_project_path = None, agent_scan_result = None\<rparr>
     = (Inl (LLMCallFailed [33]),
        \<lparr>conversation_history =
           [\<lparr>role = System, content = [115]\<rparr>, \<lparr>role = User, content = [113]\<rparr>],
         agent_project_path = None, agent_scan_result = None\<rparr>,
        [BackendCall [\<lparr>role = System, content = [115]\<rparr>, \<lparr>role = User, content = [113]\<rparr>]])"
  using ask_failure_keeps_question [of
      "\<lparr>conversation_history = [\<lparr>role = System, content = [115]\<rparr>],
        agent_project_path = None, agent_scan_result = None\<rparr>"
      "\<lambda>m. Inl [33]" "[113]" "LLMCallFailed [33]"
      "[BackendCall [\<lparr>role = System, content = [115]\<rparr>, \<lparr>role = User, content = [113]\<rparr>]]"]
  by (simp add: call_llm_def estimate_tokens_def CHARS_PER_TOKEN_def MODEL_CONTEXT_LIMIT_def)

subsection \<open>The reduce on one summary\<close>

text \<open>
  C7. On a one-element list \<open>[s]\<close> the hierarchical reduce returns \<open>s\<close>, whatever the
  bound on rounds, with no progress event and no action: no backend call, no batch.
\<close>

theorem hierarchical_reduce_singleton:
  "hierarchical_reduce fuel llm sched pp dt [s] reduce_round = Some (Inr s, [], [])"
  by (cases fuel) (simp_all add: hierarchical_reduce.simps)

subsection \<open>The batcher\<close>

lemma batch_loop_inv:
  "batch_inv available st \<Longrightarrow> batch_inv available (batch_loop available summaries st)"
proof (induction summaries arbitrary: st)
  case Nil
  then show ?case by simp
next
  case (Cons summary summaries)
  obtain batches cur ctok where st: "st = (batches, cur, ctok)"
    by (cases st) auto
  from Cons.prems st have inv: "\<forall>b \<in> set batches. batch_fits available b"
    "ctok = batch_tokens cur" "cur = [] \<or> batch_fits available cur"
    by (auto simp: batch_inv_def)
  let ?t = "estimate_tokens summary"
  show ?case
  proof (cases "cur \<noteq> [] \<and> (ctok + ?t > available \<or> length cur \<ge> REDUCE_BATCH_MAX)")
    case True
    let ?st1 = "(batches @ [cur], [summary], ?t)"
    have step: "batch_loop available (summary # summaries) st = batch_loop available summaries ?st1"
      using True by (simp add: st)
    have "batch_fits available [summary]"
      by (auto simp: batch_fits_def batch_tokens_def REDUCE_BATCH_MAX_def)
    with inv True have "batch_inv available ?st1"
      by (auto simp: batch_inv_def batch_tokens_def)
    from Cons.IH [OF this] step show ?thesis by simp
  next
    case False
    let ?st1 = "(batches, cur @ [summary], ctok + ?t)"
    have step: "batch_loop available (summary # summaries) st = batch_loop available summaries ?st1"
      using False by (auto simp: st)
    have "batch_fits available (cur @ [summary])"
    proof (cases "cur = []")
      case True
      then show ?thesis
        by (auto simp: batch_fits_def batch_tokens_def REDUCE_BATCH_MAX_def)
    next
      case nonempty: False
      with False have "ctok + ?t \<le> available" "length cur < REDUCE_BATCH_MAX"
        by auto
      with inv(2) show ?thesis
        by (auto simp: batch_fits_def batch_tokens_def)
    qed
    with inv have "batch_inv available ?st1"
      by (auto simp: batch_inv_def batch_tokens_def)
    from Cons.IH [OF this] step show ?thesis by simp
  qed
qed

lemma batch_loop_content:
  "batch_content (batch_loop available summaries st) = batch_content st @ summaries"
proof (induction summaries arbitrary: st)
  case Nil
  then show ?case by simp
next
  case (Cons summary summaries)
  obtain batches cur ctok where st: "st = (batches, cur, ctok)"
    by (cases st) auto
  let ?t = "estimate_tokens summary"
  show ?case
  proof (cases "cur \<noteq> [] \<and> (ctok + ?t > available \<or> length cur \<ge> REDUCE_BATCH_MAX)")
    case True
    let ?st1 = "(batches @ [cur], [summary], ?t)"
    have step: "batch_loop available (summary # summaries) st = batch_loop available summaries ?st1"
      using True by (simp add: st)
    have "batch_content ?st1 = batch_content st @ [summary]"
      by (simp add: batch_content_def st)
    then show ?thesis by (simp add: step Cons.IH)
  next
    case False
    let ?st1 = "(batches, cur @ [summary], ctok + ?t)"
    have step: "batch_loop available (summary # summaries) st = batch_loop available summaries ?st1"
      using False by (auto simp: st)
    have "batch_content ?st1 = batch_content st @ [summary]"
      by (simp add: batch_content_def st)
    then show ?thesis by (simp add: step Cons.IH)
  qed
qed

lemma build_batches_fit:
  "b \<in> set (build_token_aware_batches summaries) \<Longrightarrow> batch_fits reduce_available b"
proof -
  assume b: "b \<in> set (build_token_aware_batches summaries)"
  have "batch_inv reduce_available ([], [], 0)"
    by (simp add: batch_inv_def batch_tokens_def)
  then have "batch_inv reduce_available (batch_loop reduce_available summaries ([], [], 0))"
    by (rule batch_loop_inv)
  with b show ?thesis
    by (auto simp: build_token_aware_batches_def batch_inv_def split: prod.splits if_splits)
qed

lemma concat_build_batches: "concat (build_token_aware_batches summaries) = summaries"
proof -
  obtain batches cur ctok where
    r: "batch_loop reduce_available summaries ([], [], 0) = (batches, cur, ctok)"
    by (cases "batch_loop reduce_available summaries ([], [], 0)") auto
  have "batch_content (batches, cur, ctok) = batch_content ([], [], 0) @ summaries"
    using batch_loop_content [of reduce_available summaries "([], [], 0)"] by (simp only: r)
  then have "concat batches @ cur = summaries"
    by (simp add: batch_content_def)
  then show ?thesis
    by (auto simp: build_token_aware_batches_def r)
qed

lemma length_le_concat:
  "\<forall>b \<in> set bs. b \<noteq> [] \<Longrightarrow> length bs \<le> length (concat bs)"
proof (induction bs)
  case Nil
  then show ?case by simp
next
  case (Cons b bs)
  then have "1 \<le> length b" by (cases b) auto
  with Cons show ?case by simp
qed

lemma length_build_batches_le:
  "length (build_token_aware_batches summaries) \<le> length summaries"
proof -
  have "\<forall>b \<in> set (build_token_aware_batches summaries). b \<noteq> []"
    using build_batches_fit by (auto simp: batch_fits_def)
  then have "length (build_token_aware_batches summaries)
      \<le> length (concat (build_token_aware_batches summaries))"
    by (rule length_le_concat)
  then show ?thesis by (simp add: concat_build_batches)
qed

lemma build_batches_nonempty:
  "summaries \<noteq> [] \<Longrightarrow> build_token_aware_batches summaries \<noteq> []"
  using concat_build_batches [of summaries] by auto

lemma reduce_available_value: "reduce_available = 89509"
  by (simp add: reduce_available_def reduce_overhead_def REDUCE_TOKEN_BUDGET_def
      estimate_tokens_def CHARS_PER_TOKEN_def SYSTEM_PROMPT_def REDUCE_BATCH_PROMPT_format_def
      ascii_def)

text \<open>
  C6. Every batch emitted by \<open>_build_token_aware_batches\<close> holds at most
  \<open>REDUCE_BATCH_MAX = 20\<close> summaries, and either the sum of the estimates of its
  summaries is at most the available size, \<open>REDUCE_TOKEN_BUDGET\<close> minus the computed
  overhead of the prompt template, or it consists of one summary that alone exceeds the
  available size.
\<close>

theorem batches_within_available:
  "\<forall>b \<in> set (build_token_aware_batches summaries).
     length b \<le> REDUCE_BATCH_MAX \<and> REDUCE_BATCH_MAX = 20
     \<and> (sum_list (map estimate_tokens b) \<le> REDUCE_TOKEN_BUDGET - reduce_overhead
          \<or> (length b = 1 \<and> estimate_tokens (hd b) > REDUCE_TOKEN_BUDGET - reduce_overhead))"
proof
  fix b assume "b \<in> set (build_token_aware_batches summaries)"
  then have "batch_fits reduce_available b" by (rule build_batches_fit)
  then show "length b \<le> REDUCE_BATCH_MAX \<and> REDUCE_BATCH_MAX = 20
     \<and> (sum_list (map estimate_tokens b) \<le> REDUCE_TOKEN_BUDGET - reduce_overhead
          \<or> (length b = 1 \<and> estimate_tokens (hd b) > REDUCE_TOKEN_BUDGET - reduce_overhead))"
    by (simp add: batch_fits_def batch_tokens_def reduce_available_def REDUCE_BATCH_MAX_def)
qed

lemma estimate_tokens_oversized: "estimate_tokens oversized_summary = 100000"
  by (simp add: estimate_tokens_def CHARS_PER_TOKEN_def oversized_summary_def)

lemma build_batches_example:
  "build_token_aware_batches [[97], oversized_summary, [98], [99]]
     = [[[97]], [oversized_summary], [[98], [99]]]"
proof -
  have small: "estimate_tokens [97] = 0" "estimate_tokens [98] = 0" "estimate_tokens [99] = 0"
    by (simp_all add: estimate_tokens_def CHARS_PER_TOKEN_def)
  show ?thesis
    by (simp add: build_token_aware_batches_def reduce_available_value small
        estimate_tokens_oversized REDUCE_BATCH_MAX_def)
qed

theorem batches_within_available_witness:
  "[oversized_summary] \<in> set (build_token_aware_batches [[97], oversized_summary, [98], [99]])
   \<and> length [oversized_summary] \<le> REDUCE_BATCH_MAX
   \<and> estimate_tokens (hd [oversized_summary]) > REDUCE_TOKEN_BUDGET - reduce_overhead
   \<and> [[98], [99]] \<in> set (build_token_aware_batches [[97], oversized_summary, [98], [99]])
   \<and> sum_list (map estimate_tokens [[98], [99]]) \<le> REDUCE_TOKEN_BUDGET - reduce_overhead"
proof -
  let ?S = "[[97], oversized_summary, [98], [99]]"
  have m1: "[oversized_summary] \<in> set (build_token_aware_batches ?S)"
    unfolding build_batches_example by simp
  have m2: "[[98], [99]] \<in> set (build_token_aware_batches ?S)"
    unfolding build_batches_example by simp
  have over: "estimate_tokens (hd [oversized_summary]) > REDUCE_TOKEN_BUDGET - reduce_overhead"
    using reduce_available_value estimate_tokens_oversized by (simp add: reduce_available_def)
  have two: "sum_list (map estimate_tokens [[98], [99]]) \<le> REDUCE_TOKEN_BUDGET - reduce_overhead"
    using reduce_available_value
    by (simp add: reduce_available_def estimate_tokens_def CHARS_PER_TOKEN_def)
  from bspec [OF batches_within_available [of ?S] m1]
  have "length [oversized_summary] \<le> REDUCE_BATCH_MAX" by (rule conjunct1)
  with m1 m2 over two show ?thesis by (intro conjI)
qed


subsection \<open>Completion order and result slots\<close>

lemma set_completion_order: "set (completion_order pref n) = {0..<n}"
  by (auto simp: completion_order_def)

lemma first_error_None:
  "first_error results order k = None \<Longrightarrow> i \<in> set order \<Longrightarrow> \<exists>r. results ! i = Inr r"
  by (induction order arbitrary: k) (auto split: sum.splits)

lemma first_error_Some:
  "first_error results order k = Some (e, completed) \<Longrightarrow>
   \<exists>i \<in> set order. results ! i = Inl e"
  by (induction order arbitrary: k) (auto split: sum.splits)

lemma all_succeeded:
  assumes "first_error results (completion_order pref (length results)) 0 = None"
    and "i < length results"
  shows "\<exists>r. results ! i = Inr r"
proof -
  from assms(2) have "i \<in> set (completion_order pref (length results))"
    by (simp add: set_completion_order)
  with assms(1) show ?thesis by (rule first_error_None)
qed

lemma length_slots: "length (slots results) = length results"
  by (induction results rule: slots.induct) auto

lemma slots_nth:
  "i < length results \<Longrightarrow> results ! i = Inr r \<Longrightarrow> slots results ! i = r"
proof (induction results arbitrary: i rule: slots.induct)
  case 1
  then show ?case by simp
next
  case (2 r' rs)
  then show ?case by (cases i) auto
next
  case (3 e rs)
  then show ?case by (cases i) auto
qed

subsection \<open>Batches of small summaries\<close>

lemma batch_tokens_bound:
  "\<forall>s \<in> set xs. estimate_tokens s \<le> q \<Longrightarrow> batch_tokens xs \<le> int (length xs) * q"
  by (induction xs) (auto simp: batch_tokens_def algebra_simps)

lemma small_batch_within:
  assumes "int REDUCE_BATCH_MAX * q \<le> available" "0 \<le> q"
    and "\<forall>s \<in> set xs. estimate_tokens s \<le> q" "length xs \<le> REDUCE_BATCH_MAX"
  shows "batch_tokens xs \<le> available"
proof -
  have "batch_tokens xs \<le> int (length xs) * q"
    using assms(3) by (rule batch_tokens_bound)
  also have "\<dots> \<le> int REDUCE_BATCH_MAX * q"
    using assms(2,4) by (simp add: mult_right_mono)
  finally show ?thesis using assms(1) by simp
qed

lemma batch_loop_count:
  assumes av: "int REDUCE_BATCH_MAX * q \<le> available" "0 \<le> q"
  shows "\<forall>s \<in> set summaries. estimate_tokens s \<le> q \<Longrightarrow>
         \<forall>s \<in> set cur. estimate_tokens s \<le> q \<Longrightarrow>
         length cur \<le> REDUCE_BATCH_MAX \<Longrightarrow> ctok = batch_tokens cur \<Longrightarrow>
         (case batch_loop available summaries (batches, cur, ctok) of
            (b, c, t) \<Rightarrow> length b + (if c \<noteq> [] then 1 else 0))
           = length batches + (length cur + length summaries + 19) div 20"
proof (induction summaries arbitrary: batches cur ctok)
  case Nil
  then show ?case by (cases cur) (auto simp: REDUCE_BATCH_MAX_def)
next
  case (Cons summary summaries)
  let ?t = "estimate_tokens summary"
  have t: "?t = batch_tokens [summary]" by (simp add: batch_tokens_def)
  show ?case
  proof (cases "length cur \<ge> REDUCE_BATCH_MAX")
    case True
    with Cons.prems have len: "length cur = 20" and ne: "cur \<noteq> []"
      by (auto simp: REDUCE_BATCH_MAX_def)
    have step: "batch_loop available (summary # summaries) (batches, cur, ctok)
        = batch_loop available summaries (batches @ [cur], [summary], ?t)"
      using True ne by simp
    have "(case batch_loop available summaries (batches @ [cur], [summary], ?t) of
            (b, c, t) \<Rightarrow> length b + (if c \<noteq> [] then 1 else 0))
          = length (batches @ [cur]) + (length [summary] + length summaries + 19) div 20"
      using Cons.prems(1) t by (intro Cons.IH) (auto simp: REDUCE_BATCH_MAX_def)
    with step len show ?thesis by simp
  next
    case False
    then have lt: "length (cur @ [summary]) \<le> REDUCE_BATCH_MAX" by simp
    have "\<forall>s \<in> set (cur @ [summary]). estimate_tokens s \<le> q"
      using Cons.prems(1,2) by auto
    with av lt have "batch_tokens (cur @ [summary]) \<le> available"
      by (intro small_batch_within)
    then have fits: "\<not> ctok + ?t > available"
      using Cons.prems(4) by (simp add: batch_tokens_def)
    have step: "batch_loop available (summary # summaries) (batches, cur, ctok)
        = batch_loop available summaries (batches, cur @ [summary], ctok + ?t)"
      using False fits by simp
    have "(case batch_loop available summaries (batches, cur @ [summary], ctok + ?t) of
            (b, c, t) \<Rightarrow> length b + (if c \<noteq> [] then 1 else 0))
          = length batches + (length (cur @ [summary]) + length summaries + 19) div 20"
      using Cons.prems lt by (intro Cons.IH) (auto simp: batch_tokens_def)
    with step show ?thesis by simp
  qed
qed

lemma length_build_batches_small:
  assumes "\<forall>s \<in> set summaries. estimate_tokens s \<le> reduce_available div 20"
  shows "length (build_token_aware_batches summaries) = (length summaries + 19) div 20"
proof -
  have av: "int REDUCE_BATCH_MAX * (reduce_available div 20) \<le> reduce_available"
    "0 \<le> reduce_available div 20"
    by (simp_all add: REDUCE_BATCH_MAX_def reduce_available_value)
  have "(case batch_loop reduce_available summaries ([], [], 0) of
            (b, c, t) \<Rightarrow> length b + (if c \<noteq> [] then 1 else 0))
          = length ([] :: pystr list list) + (length ([] :: pystr list) + length summaries + 19) div 20"
    using assms by (intro batch_loop_count [OF av]) (auto simp: batch_tokens_def)
  then show ?thesis
    by (auto simp: build_token_aware_batches_def split: prod.splits)
qed

subsection \<open>Rounds of the hierarchical reduce\<close>

lemma call_llm_Inr: "fst (call_llm llm messages) = Inr r \<Longrightarrow> llm messages = Inr r"
  by (auto simp: call_llm_def Let_def split: if_splits sum.splits)

lemma reduce_batch_Inr:
  "fst (reduce_batch llm batch i n pp dt) = Inr r \<Longrightarrow> \<exists>messages. llm messages = Inr r"
proof -
  assume a: "fst (reduce_batch llm batch i n pp dt) = Inr r"
  let ?messages = "[\<lparr>role = System, content = SYSTEM_PROMPT\<rparr>,
    \<lparr>role = User, content = REDUCE_BATCH_PROMPT_format pp dt
       (join (ascii ''\<newline>\<newline>---\<newline>\<newline>'') (summary_sections batch))\<rparr>]"
  from a have "fst (call_llm llm ?messages) = Inr r"
    by (simp add: reduce_batch_def Let_def split: prod.splits)
  then have "llm ?messages = Inr r" by (rule call_llm_Inr)
  then show ?thesis by blast
qed

lemma length_reduce_outcomes: "length (reduce_outcomes llm pp dt batches) = length batches"
  by (simp add: reduce_outcomes_def)

lemma reduce_outcomes_nth:
  "i < length batches \<Longrightarrow>
   reduce_outcomes llm pp dt batches ! i
     = reduce_batch llm (batches ! i) (i + 1) (length batches) pp dt"
  by (simp add: reduce_outcomes_def nth_enumerate_eq)

text \<open>One round that is not the last, unfolded.\<close>

lemma hierarchical_reduce_round:
  assumes "length summaries \<noteq> 1"
    and "build_token_aware_batches summaries \<noteq> []"
    and "first_error (map fst (reduce_outcomes llm pp dt (build_token_aware_batches summaries)))
           (completion_order (sched rnd) (length (build_token_aware_batches summaries))) 0 = None"
    and "length (build_token_aware_batches summaries) > 1"
  shows "hierarchical_reduce (Suc fuel) llm sched pp dt summaries rnd
     = (case hierarchical_reduce fuel llm sched pp dt
               (slots (map fst (reduce_outcomes llm pp dt (build_token_aware_batches summaries))))
               (rnd + 1) of
          None \<Rightarrow> None
        | Some (r, evs', acts') \<Rightarrow>
            Some (r,
              (ReducingRound rnd (length summaries) (length (build_token_aware_batches summaries))
                # reducing_events rnd (length (build_token_aware_batches summaries))
                    (length (build_token_aware_batches summaries))) @ evs',
              concat (map snd (reduce_outcomes llm pp dt (build_token_aware_batches summaries)))
                @ acts'))"
  using assms
  by (simp add: hierarchical_reduce.simps Let_def length_slots length_reduce_outcomes min_def)

lemma hierarchical_reduce_returns:
  assumes "length summaries \<noteq> 1"
    and "\<not> (build_token_aware_batches summaries \<noteq> []
          \<and> first_error (map fst (reduce_outcomes llm pp dt (build_token_aware_batches summaries)))
               (completion_order (sched rnd) (length (build_token_aware_batches summaries))) 0
              = None
          \<and> length (build_token_aware_batches summaries) > 1)"
  shows "\<exists>res. hierarchical_reduce (Suc fuel) llm sched pp dt summaries rnd = Some res"
  using assms
  by (auto simp: hierarchical_reduce.simps Let_def length_slots length_reduce_outcomes
      split: option.splits)

lemma length_SYSTEM_PROMPT: "length SYSTEM_PROMPT = 1009"
  by (simp add: SYSTEM_PROMPT_def ascii_def)

lemma length_REDUCE_BATCH_PROMPT_format:
  "length (REDUCE_BATCH_PROMPT_format pp dt cs) = 465 + length pp + length dt + length cs"
  by (simp add: REDUCE_BATCH_PROMPT_format_def ascii_def)

lemma estimate_tokens_big_summary: "estimate_tokens big_summary = 50000"
  by (simp add: estimate_tokens_def CHARS_PER_TOKEN_def big_summary_def)

lemma build_batches_big:
  "build_token_aware_batches [big_summary, big_summary] = [[big_summary], [big_summary]]"
  by (simp add: build_token_aware_batches_def reduce_available_value
      estimate_tokens_big_summary REDUCE_BATCH_MAX_def)

lemma reduce_batch_echo:
  "fst (reduce_batch echo_backend [big_summary] i n [] []) = Inr big_summary"
proof -
  have len: "length big_summary = 150000" by (simp add: big_summary_def)
  have "length (join (ascii ''\<newline>\<newline>---\<newline>\<newline>'') (summary_sections [big_summary])) = 150014"
    by (simp add: summary_sections_def ascii_def str_of_nat.simps len)
  then have "estimate_tokens (join [32] (map content
      [\<lparr>role = System, content = SYSTEM_PROMPT\<rparr>,
       \<lparr>role = User, content = REDUCE_BATCH_PROMPT_format [] []
          (join (ascii ''\<newline>\<newline>---\<newline>\<newline>'') (summary_sections [big_summary]))\<rparr>]))
      = 50496"
    by (simp add: estimate_tokens_def CHARS_PER_TOKEN_def length_SYSTEM_PROMPT
        length_REDUCE_BATCH_PROMPT_format)
  then show ?thesis
    by (simp add: reduce_batch_def call_llm_def Let_def MODEL_CONTEXT_LIMIT_def
        echo_backend_def split: prod.splits)
qed

lemma reduce_outcomes_echo:
  "map fst (reduce_outcomes echo_backend [] [] [[big_summary], [big_summary]])
     = [Inr big_summary, Inr big_summary]"
  by (simp add: reduce_outcomes_def enumerate_simps reduce_batch_echo)

text \<open>
  With that backend the reduce of two such summaries needs a further round after every
  round: no bound on rounds is enough.
\<close>

lemma echo_reduce_never_returns:
  "hierarchical_reduce fuel echo_backend in_order [] [] [big_summary, big_summary] rnd = None"
proof (induction fuel arbitrary: rnd)
  case 0
  show ?case by (simp add: hierarchical_reduce.simps)
next
  case (Suc fuel)
  have order: "completion_order (in_order rnd) (Suc (Suc 0)) = [0, Suc 0]"
    by (simp add: completion_order_def in_order_def upt_rec)
  have "hierarchical_reduce (Suc fuel) echo_backend in_order [] [] [big_summary, big_summary] rnd
      = (case hierarchical_reduce fuel echo_backend in_order [] []
               (slots (map fst (reduce_outcomes echo_backend [] []
                  (build_token_aware_batches [big_summary, big_summary])))) (rnd + 1) of
          None \<Rightarrow> None
        | Some (r, evs', acts') \<Rightarrow>
            Some (r,
              (ReducingRound rnd (length [big_summary, big_summary])
                  (length (build_token_aware_batches [big_summary, big_summary]))
                # reducing_events rnd (length (build_token_aware_batches [big_summary, big_summary]))
                    (length (build_token_aware_batches [big_summary, big_summary]))) @ evs',
              concat (map snd (reduce_outcomes echo_backend [] []
                 (build_token_aware_batches [big_summary, big_summary]))) @ acts'))"
    by (rule hierarchical_reduce_round)
      (simp_all add: build_batches_big reduce_outcomes_echo order)
  also have "\<dots> = None"
    by (simp add: build_batches_big reduce_outcomes_echo Suc.IH)
  finally show ?case .
qed

text \<open>
  C5, as stated: the reduce of \<open>S\<close> ends within \<open>ceil(log\<^sub>2\<^sub>0 |S|)\<close> rounds. For two
  summaries that bound is one round. With the backend above one round is not enough (nor
  are five).
\<close>

theorem reduce_round_bound_counterexample:
  "length [big_summary, big_summary] \<le> 20 ^ 1
   \<and> hierarchical_reduce 1 echo_backend in_order [] [] [big_summary, big_summary] 1 = None
   \<and> hierarchical_reduce 5 echo_backend in_order [] [] [big_summary, big_summary] 1 = None"
  by (simp add: echo_reduce_never_returns)

lemma reduce_terminates_small:
  assumes llm: "\<forall>messages r. llm messages = Inr r \<longrightarrow> estimate_tokens r \<le> reduce_available div 20"
  shows "summaries \<noteq> [] \<Longrightarrow>
         \<forall>s \<in> set summaries. estimate_tokens s \<le> reduce_available div 20 \<Longrightarrow>
         length summaries \<le> 20 ^ k \<Longrightarrow>
         \<exists>res. hierarchical_reduce k llm sched pp dt summaries rnd = Some res"
proof (induction k arbitrary: summaries rnd)
  case 0
  then have "length summaries = 1" by (cases summaries) auto
  then show ?case by (simp add: hierarchical_reduce.simps)
next
  case (Suc k)
  show ?case
  proof (cases "length summaries = 1")
    case True
    then show ?thesis by (simp add: hierarchical_reduce.simps)
  next
    case several: False
    let ?bs = "build_token_aware_batches summaries"
    let ?results = "map fst (reduce_outcomes llm pp dt ?bs)"
    show ?thesis
    proof (cases "?bs \<noteq> []
          \<and> first_error ?results (completion_order (sched rnd) (length ?bs)) 0 = None
          \<and> length ?bs > 1")
      case False
      with several show ?thesis by (rule hierarchical_reduce_returns)
    next
      case True
      let ?inter = "slots ?results"
      have len: "length ?bs = (length summaries + 19) div 20"
        using Suc.prems(2) by (rule length_build_batches_small)
      have l: "length ?inter = length ?bs"
        by (simp add: length_slots length_reduce_outcomes)
      have lr: "length ?results = length ?bs"
        by (simp add: length_reduce_outcomes)
      have ne: "?inter \<noteq> []" using True l by auto
      have small: "\<forall>s \<in> set ?inter. estimate_tokens s \<le> reduce_available div 20"
      proof
        fix s assume "s \<in> set ?inter"
        then obtain i where i: "i < length ?inter" "?inter ! i = s"
          by (auto simp: in_set_conv_nth)
        with l lr have i': "i < length ?results" by simp
        from True have "first_error ?results
            (completion_order (sched rnd) (length ?results)) 0 = None"
          by (simp only: lr)
        from all_succeeded [OF this i'] obtain r where r: "?results ! i = Inr r" by blast
        from slots_nth [OF i' r] i have sr: "s = r" by simp
        from i' lr have ib: "i < length ?bs" by simp
        from r ib have "fst (reduce_batch llm (?bs ! i) (i + 1) (length ?bs) pp dt) = Inr r"
          by (simp add: reduce_outcomes_nth length_reduce_outcomes)
        then obtain m where "llm m = Inr r" using reduce_batch_Inr by blast
        with llm sr show "estimate_tokens s \<le> reduce_available div 20" by blast
      qed
      have "length summaries \<le> 20 * 20 ^ k" using Suc.prems(3) by simp
      then have "(length summaries + 19) div 20 \<le> 20 ^ k" by simp
      with len l have bound: "length ?inter \<le> 20 ^ k" by simp
      from Suc.IH [OF ne small bound, of "rnd + 1"] obtain res where
        res: "hierarchical_reduce k llm sched pp dt ?inter (rnd + 1) = Some res" by blast
      from True have t1: "?bs \<noteq> []"
        and t2: "first_error ?results (completion_order (sched rnd) (length ?bs)) 0 = None"
        and t3: "length ?bs > 1" by blast+
      show ?thesis
        unfolding hierarchical_reduce_round [where sched = sched and rnd = rnd, OF several t1 t2 t3] res
        by (cases res) auto
    qed
  qed
qed

text \<open>
  C5, amended. In every round the number of batches is at most the number of summaries
  put into it. When the list is not empty and every summary, given or returned by the
  backend, estimates to at most a twentieth of the available size, the batches are groups
  of twenty, and the reduce returns or raises within \<open>k\<close> rounds for every \<open>k\<close> with
  \<open>|S| \<le> 20\<^sup>k\<close>, that is within \<open>ceil(log\<^sub>2\<^sub>0 |S|)\<close> rounds.
\<close>

theorem reduce_rounds_small_summaries:
  "length (build_token_aware_batches S) \<le> length S
   \<and> (summaries \<noteq> []
        \<and> (\<forall>s \<in> set summaries. estimate_tokens s \<le> reduce_available div 20)
        \<and> (\<forall>messages r. llm messages = Inr r \<longrightarrow> estimate_tokens r \<le> reduce_available div 20)
        \<and> length summaries \<le> 20 ^ k \<longrightarrow>
      (\<exists>res. hierarchical_reduce k llm sched pp dt summaries rnd = Some res))"
  using length_build_batches_le [of S] reduce_terminates_small [of llm summaries k sched pp dt rnd]
  by blast

theorem reduce_rounds_small_summaries_witness:
  "length (build_token_aware_batches [[97], [98], [99]]) \<le> length [[97], [98], [99 :: nat]]
   \<and> estimate_tokens [115] \<le> reduce_available div 20
   \<and> length (replicate 25 [115 :: nat]) \<le> 20 ^ 2
   \<and> (\<exists>res. hierarchical_reduce 2 (\<lambda>m. Inr [115]) in_order [] [] (replicate 25 [115]) 1 = Some res)"
proof -
  have e: "estimate_tokens [115] \<le> reduce_available div 20"
    by (simp add: estimate_tokens_def CHARS_PER_TOKEN_def reduce_available_value)
  have h1: "replicate 25 [115 :: nat] \<noteq> []" by simp
  have h2: "\<forall>s \<in> set (replicate 25 [115]). estimate_tokens s \<le> reduce_available div 20"
    using e by simp
  have h3: "\<forall>messages r. (\<lambda>m :: message list. Inr [115] :: pystr + pystr) messages = Inr r
      \<longrightarrow> estimate_tokens r \<le> reduce_available div 20"
    using e by auto
  have h4: "length (replicate 25 [115 :: nat]) \<le> 20 ^ 2" by simp
  note inst = reduce_rounds_small_summaries [of "[[97], [98], [99]]" "replicate 25 [115]"
      "\<lambda>m. Inr [115]" 2 in_order "[]" "[]" 1]
  from inst have c1: "length (build_token_aware_batches [[97], [98], [99]])
      \<le> length [[97], [98], [99 :: nat]]" by (rule conjunct1)
  from inst h1 h2 h3 h4 have c2: "\<exists>res. hierarchical_reduce 2 (\<lambda>m. Inr [115]) in_order [] []
      (replicate 25 [115]) 1 = Some res" by blast
  from c1 e h4 c2 show ?thesis by (intro conjI)
qed


subsection \<open>Events and actions of the stages\<close>











subsection \<open>The example run\<close>


lemma length_INITIAL_ANALYSIS_PROMPT_format:
  "length (INITIAL_ANALYSIS_PROMPT_format pp dt cc) = 1249 + length pp + length dt + length cc"
  by (simp add: INITIAL_ANALYSIS_PROMPT_format_def ascii_def)














text \<open>
  The premise of the theorem in terms of one batch: when the call for some batch of a
  round fails, by the backend or by the guard, the round raises.
\<close>

lemma failed_batch_aborts_round:
  assumes "length summaries \<noteq> 1"
    and "i < length (build_token_aware_batches summaries)"
    and "fst (reduce_batch llm (build_token_aware_batches summaries ! i) (i + 1)
           (length (build_token_aware_batches summaries)) pp dt) = Inl e"
  shows "\<exists>e' evs acts.
           hierarchical_reduce (Suc fuel) llm sched pp dt summaries rnd = Some (Inl e', evs, acts)"
proof -
  let ?bs = "build_token_aware_batches summaries"
  let ?results = "map fst (reduce_outcomes llm pp dt ?bs)"
  have lr: "length ?results = length ?bs" by (simp add: length_reduce_outcomes)
  have ri: "?results ! i = Inl e"
    using assms(2,3) by (simp add: reduce_outcomes_nth length_reduce_outcomes)
  have "first_error ?results (completion_order (sched rnd) (length ?results)) 0 \<noteq> None"
  proof
    assume "first_error ?results (completion_order (sched rnd) (length ?results)) 0 = None"
    from all_succeeded [OF this] assms(2) lr obtain r where "?results ! i = Inr r"
      by auto
    with ri show False by simp
  qed
  then obtain e' completed where
    "first_error ?results (completion_order (sched rnd) (length ?bs)) 0 = Some (e', completed)"
    unfolding lr by auto
  with assms(1,2) show ?thesis
    by (auto simp: hierarchical_reduce.simps Let_def min_def)
qed

text \<open>
  A single-call run stores the two-message history before it calls the backend: when that
  call raises, the run ends with the \<open>error\<close> event and leaves a non-empty history.
\<close>

lemma failed_single_call_keeps_history:
  assumes "single_call_tokens sr \<le> MAX_PROMPT_TOKENS"
    and "call_llm llm [\<lparr>role = System, content = SYSTEM_PROMPT\<rparr>,
           \<lparr>role = User, content = INITIAL_ANALYSIS_PROMPT_format (project_path sr)
              (directory_tree sr) (code_contents sr)\<rparr>] = (Inl exc, acts)"
  shows "\<exists>ag'. analyze_project_stream fuel llm sched (Inr sr) ag
           = Some ([Chunking 1, Mapping 1 1, Error exc], ag', acts)
         \<and> length (conversation_history ag') = 2"
  using assms by (simp add: analyze_project_stream_def Let_def)


subsection \<open>Follow-up questions after a failed run\<close>

text \<open>
  Whatever the backend, \<open>ask\<close> on a non-empty history does not raise the error of the
  missing analysis: it raises what \<open>_call_llm\<close> raises, or returns.
\<close>

lemma call_llm_errors:
  "fst (call_llm llm messages) = Inl exc \<Longrightarrow>
   (\<exists>n. exc = PayloadTooLarge n) \<or> (\<exists>e. exc = LLMCallFailed e)"
  by (auto simp: call_llm_def Let_def split: if_splits sum.splits)

lemma ask_nonempty_not_missing_analysis:
  "conversation_history ag \<noteq> [] \<Longrightarrow> fst (ask llm question ag) \<noteq> Inl NoProjectAnalyzed"
proof
  assume ne: "conversation_history ag \<noteq> []"
    and a: "fst (ask llm question ag) = Inl NoProjectAnalyzed"
  let ?messages = "conversation_history ag @ [\<lparr>role = User, content = question\<rparr>]"
  from ne a have "fst (call_llm llm ?messages) = Inl NoProjectAnalyzed"
    by (auto simp: ask_def Let_def split: prod.splits sum.splits)
  from call_llm_errors [OF this] show False by auto
qed

lemma single_call_tokens_small: "single_call_tokens small_scan = 755"
  by (simp add: single_call_tokens_def small_scan_def estimate_tokens_def CHARS_PER_TOKEN_def
      length_SYSTEM_PROMPT length_INITIAL_ANALYSIS_PROMPT_format)

lemma failed_run_agent_history:
  "conversation_history failed_run_agent
     = [\<lparr>role = System, content = SYSTEM_PROMPT\<rparr>,
        \<lparr>role = User, content =
           INITIAL_ANALYSIS_PROMPT_format (project_path small_scan) (directory_tree small_scan)
             (code_contents small_scan)\<rparr>]"
  by (simp add: failed_run_agent_def)

lemma call_llm_flaky_analysis:
  "call_llm flaky_backend (conversation_history failed_run_agent)
     = (Inl (LLMCallFailed [33]), [BackendCall (conversation_history failed_run_agent)])"
proof -
  have "int (length (join [32] (map content (conversation_history failed_run_agent)))) = 2268"
    by (simp add: failed_run_agent_history small_scan_def length_SYSTEM_PROMPT
        length_INITIAL_ANALYSIS_PROMPT_format)
  then have guard: "\<not> estimate_tokens (join [32] (map content
      (conversation_history failed_run_agent))) > MODEL_CONTEXT_LIMIT"
    unfolding estimate_tokens_def CHARS_PER_TOKEN_def MODEL_CONTEXT_LIMIT_def by linarith
  have "flaky_backend (conversation_history failed_run_agent) = Inl [33]"
    by (simp add: flaky_backend_def failed_run_agent_history)
  then show ?thesis
    by (simp add: call_llm_within [OF guard])
qed

lemma call_llm_flaky_question:
  "call_llm flaky_backend
       (conversation_history failed_run_agent @ [\<lparr>role = User, content = [113]\<rparr>])
     = (Inr [121],
        [BackendCall (conversation_history failed_run_agent
           @ [\<lparr>role = User, content = [113]\<rparr>])])"
proof -
  let ?messages = "conversation_history failed_run_agent @ [\<lparr>role = User, content = [113]\<rparr>]"
  have "int (length (join [32] (map content ?messages))) = 2270"
    by (simp add: failed_run_agent_history small_scan_def length_SYSTEM_PROMPT
        length_INITIAL_ANALYSIS_PROMPT_format)
  then have guard: "\<not> estimate_tokens (join [32] (map content ?messages)) > MODEL_CONTEXT_LIMIT"
    unfolding estimate_tokens_def CHARS_PER_TOKEN_def MODEL_CONTEXT_LIMIT_def by linarith
  have "flaky_backend ?messages = Inr [121]"
    by (simp add: flaky_backend_def failed_run_agent_history)
  then show ?thesis
    by (simp add: call_llm_within [OF guard])
qed

text \<open>
  C9. \<open>ask\<close> is to raise, without a call of the backend, as long as no analysis has
  completed. The single-call path stores the history of two messages before it calls the
  backend and keeps it when that call fails, whereas the map-reduce path stores a history
  only after the report. After a failed single-call run no analysis has completed, yet
  \<open>ask\<close> finds a non-empty history: here the run on the small project ends with the
  \<open>error\<close> event, and the following \<open>ask\<close> calls the backend and returns its answer.
\<close>

theorem ask_after_failed_single_call:
  "analyze_project_stream 0 flaky_backend in_order (Inr small_scan) fresh_agent
     = Some ([Chunking 1, Mapping 1 1, Error (LLMCallFailed [33])], failed_run_agent,
             [BackendCall (conversation_history failed_run_agent)])
   \<and> length (conversation_history failed_run_agent) = 2
   \<and> ask flaky_backend [113] failed_run_agent
     = (Inr [121],
        failed_run_agent\<lparr>conversation_history :=
           conversation_history failed_run_agent
             @ [\<lparr>role = User, content = [113]\<rparr>, \<lparr>role = Assistant, content = [121]\<rparr>]\<rparr>,
        [BackendCall (conversation_history failed_run_agent
           @ [\<lparr>role = User, content = [113]\<rparr>])])"
proof -
  have route: "single_call_tokens small_scan \<le> MAX_PROMPT_TOKENS"
    by (simp add: single_call_tokens_small MAX_PROMPT_TOKENS_def MODEL_CONTEXT_LIMIT_def
        PROMPT_OVERHEAD_TOKENS_def)
  have run: "analyze_project_stream 0 flaky_backend in_order (Inr small_scan) fresh_agent
      = Some ([Chunking 1, Mapping 1 1, Error (LLMCallFailed [33])], failed_run_agent,
              [BackendCall (conversation_history failed_run_agent)])"
    using route call_llm_flaky_analysis
    by (simp add: analyze_project_stream_def Let_def failed_run_agent_history
        failed_run_agent_def fresh_agent_def)
  have len: "length (conversation_history failed_run_agent) = 2"
    by (simp add: failed_run_agent_history)
  have ne: "conversation_history failed_run_agent \<noteq> []"
    by (simp add: failed_run_agent_history)
  have asked: "ask flaky_backend [113] failed_run_agent
      = (Inr [121],
         failed_run_agent\<lparr>conversation_history :=
            conversation_history failed_run_agent
              @ [\<lparr>role = User, content = [113]\<rparr>, \<lparr>role = Assistant, content = [121]\<rparr>]\<rparr>,
         [BackendCall (conversation_history failed_run_agent
            @ [\<lparr>role = User, content = [113]\<rparr>])])"
    using ne call_llm_flaky_question by (simp add: ask_def)
  from run len asked show ?thesis by (intro conjI)
qed


end
